theory Spec2Isabelle
  imports Main "HOL-Library.AList"
begin

section \<open>Values exchanged over the relation\<close>

text \<open>
  The scrape library works on what \<^verbatim>\<open>json.loads\<close> returns: nested Python dictionaries,
  lists, strings, integers, booleans and \<^verbatim>\<open>None\<close>.  A dictionary is an association list in
  insertion order; a dictionary coming from Python has pairwise distinct keys.  Floating point
  numbers are left out of the type.  A character is a code point below 256.
\<close>

datatype json =
    JNull
  | JBool bool
  | JInt int
  | JStr string
  | JList "json list"
  | JDict "(string \<times> json) list"

text \<open>The exceptions the modelled code can raise; an exception is the \<open>Inl\<close> of a sum.\<close>

datatype error = TypeError | AttributeError | ValueError | KeyError

definition ebind :: "error + 'a \<Rightarrow> ('a \<Rightarrow> error + 'b) \<Rightarrow> error + 'b" where
  "ebind m f = (case m of Inl e \<Rightarrow> Inl e | Inr x \<Rightarrow> f x)"

subsection \<open>Python dictionaries\<close>

text \<open>\<^verbatim>\<open>d.get(k)\<close>, \<^verbatim>\<open>d[k] = v\<close> (an existing key keeps its place, a new key goes last) and
  \<^verbatim>\<open>d.update(e)\<close>.\<close>

definition dict_get :: "string \<Rightarrow> (string \<times> 'v) list \<Rightarrow> 'v option" where
  "dict_get k d = map_of d k"

definition dict_set :: "string \<Rightarrow> 'v \<Rightarrow> (string \<times> 'v) list \<Rightarrow> (string \<times> 'v) list" where
  "dict_set k v d = AList.update k v d"

definition dict_update :: "(string \<times> 'v) list \<Rightarrow> (string \<times> 'v) list \<Rightarrow> (string \<times> 'v) list" where
  "dict_update d e = fold (\<lambda>(k, v). dict_set k v) e d"

definition dict_keys :: "(string \<times> 'v) list \<Rightarrow> string list" where
  "dict_keys d = map fst d"

subsection \<open>Python's truth value, iteration and \<^verbatim>\<open>str\<close>\<close>

fun truthy :: "json \<Rightarrow> bool" where
  "truthy JNull = False"
| "truthy (JBool b) = b"
| "truthy (JInt i) = (i \<noteq> 0)"
| "truthy (JStr s) = (s \<noteq> [])"
| "truthy (JList xs) = (xs \<noteq> [])"
| "truthy (JDict d) = (d \<noteq> [])"

text \<open>What a \<^verbatim>\<open>for\<close> loop (or \<^verbatim>\<open>list.extend\<close>) sees: the elements of a list, the keys of a
  dictionary, the characters of a string; anything else is not iterable.\<close>

fun py_iter :: "json \<Rightarrow> error + json list" where
  "py_iter (JList xs) = Inr xs"
| "py_iter (JDict d) = Inr (map (\<lambda>(k, v). JStr k) d)"
| "py_iter (JStr s) = Inr (map (\<lambda>c. JStr [c]) s)"
| "py_iter _ = Inl TypeError"

text \<open>\<^verbatim>\<open>str(v)\<close>, which \<^verbatim>\<open>"{}_{}".format(prefix, v)\<close> applies to \<open>v\<close>: a string is itself, the
  other values are printed as \<^verbatim>\<open>repr\<close> prints them, the strings inside a list or a dictionary
  in quotes and with escapes.\<close>

definition digit_char :: "nat \<Rightarrow> char" where
  "digit_char n = char_of (48 + n)"

fun dec_nat :: "nat \<Rightarrow> string" where
  "dec_nat n = (if n < 10 then [digit_char n] else dec_nat (n div 10) @ [digit_char (n mod 10)])"

definition dec_int :: "int \<Rightarrow> string" where
  "dec_int i = (if i < 0 then CHR ''-'' # dec_nat (nat (- i)) else dec_nat (nat i))"

definition hex_char :: "nat \<Rightarrow> char" where
  "hex_char n = (if n < 10 then char_of (48 + n) else char_of (87 + n))"

definition printable :: "char \<Rightarrow> bool" where
  "printable c = (let n = (of_char c :: nat) in
     32 \<le> n \<and> n \<noteq> 127 \<and> \<not> (128 \<le> n \<and> n \<le> 160) \<and> n \<noteq> 173)"

definition repr_char :: "char \<Rightarrow> char \<Rightarrow> string" where
  "repr_char q c = (let n = (of_char c :: nat) in
     if c = q \<or> n = 92 then [char_of (92::nat), c]
     else if n = 9 then [char_of (92::nat), CHR ''t'']
     else if n = 10 then [char_of (92::nat), CHR ''n'']
     else if n = 13 then [char_of (92::nat), CHR ''r'']
     else if \<not> printable c then [char_of (92::nat), CHR ''x'', hex_char (n div 16), hex_char (n mod 16)]
     else [c])"

definition repr_str :: "string \<Rightarrow> string" where
  "repr_str s = (let q = (if CHR 0x27 \<in> set s \<and> CHR 0x22 \<notin> set s then CHR 0x22 else CHR 0x27)
     in [q] @ concat (map (repr_char q) s) @ [q])"

fun join :: "string \<Rightarrow> string list \<Rightarrow> string" where
  "join sep [] = []"
| "join sep [x] = x"
| "join sep (x # y # ys) = x @ sep @ join sep (y # ys)"

fun py_repr :: "json \<Rightarrow> string" where
  "py_repr JNull = ''None''"
| "py_repr (JBool b) = (if b then ''True'' else ''False'')"
| "py_repr (JInt i) = dec_int i"
| "py_repr (JStr s) = repr_str s"
| "py_repr (JList xs) = ''['' @ join '', '' (map py_repr xs) @ '']''"
| "py_repr (JDict d) = ''{'' @ join '', '' (map (\<lambda>(k, v). repr_str k @ '': '' @ py_repr v) d) @ ''}''"

definition py_str :: "json \<Rightarrow> string" where
  "py_str v = (case v of JStr s \<Rightarrow> s | _ \<Rightarrow> py_repr v)"

subsection \<open>\<^verbatim>\<open>str.strip\<close> and \<^verbatim>\<open>str.split(":")\<close>\<close>

definition is_space :: "char \<Rightarrow> bool" where
  "is_space c = (let n = (of_char c :: nat) in
     (9 \<le> n \<and> n \<le> 13) \<or> (28 \<le> n \<and> n \<le> 32) \<or> n = 133 \<or> n = 160)"

definition strip :: "string \<Rightarrow> string" where
  "strip s = rev (dropWhile is_space (rev (dropWhile is_space s)))"

fun split_colon :: "string \<Rightarrow> string list" where
  "split_colon [] = [[]]"
| "split_colon (c # cs) =
     (if c = CHR '':'' then [] # split_colon cs
      else (case split_colon cs of [] \<Rightarrow> [[c]] | p # ps \<Rightarrow> (c # p) # ps))"

section \<open>The topology library\<close>

text \<open>
  \<^verbatim>\<open>JujuTopology\<close> and its \<^verbatim>\<open>from_dict\<close>, \<^verbatim>\<open>identifier\<close> and \<^verbatim>\<open>label_matcher_dict\<close> come from
  \<^verbatim>\<open>charms.observability_libs.v0.juju_topology\<close>, which the scrape library imports.  The
  two things the scrape library asks of it are parameters of the model:
  \<^verbatim>\<open>JujuTopology.from_dict(m).identifier\<close> and
  \<^verbatim>\<open>ProviderTopology.from_dict(m).label_matcher_dict\<close>, each of which may raise.
\<close>

record topology =
  identifier_of :: "json \<Rightarrow> error + string"
  label_matcher_dict :: "json \<Rightarrow> error + (string \<times> json) list"

section \<open>Sanitizing a scrape job\<close>

definition ALLOWED_KEYS :: "string set" where
  "ALLOWED_KEYS = {''job_name'', ''static_configs'', ''scrape_interval'', ''scrape_timeout''}"

definition DEFAULT_JOB :: "(string \<times> json) list" where
  "DEFAULT_JOB = [(''static_configs'', JList [JDict [(''targets'', JList [JStr ''*:80''])]])]"

text \<open>\<^verbatim>\<open>job.items()\<close> exists on a dictionary only.\<close>

definition sanitize_scrape_configuration :: "json \<Rightarrow> error + (string \<times> json) list" where
  "sanitize_scrape_configuration job =
     (case job of
        JDict d \<Rightarrow> Inr (dict_update DEFAULT_JOB (filter (\<lambda>(key, value). key \<in> ALLOWED_KEYS) d))
      | _ \<Rightarrow> Inl AttributeError)"

section \<open>The consumer: relations, units and hosts\<close>

text \<open>
  A unit has its Juju name and its relation data bag (strings to strings).  A relation has its
  units, in the order in which \<^verbatim>\<open>relation.units\<close> is iterated, and the two documents of the
  application data bag, as \<^verbatim>\<open>json.loads\<close> returns them (\<open>None\<close> when the key is not set).
\<close>

record relation_unit =
  unit_name :: string
  unit_data :: "(string \<times> string) list"

record relation =
  units :: "relation_unit list"
  app_scrape_jobs :: "json option"
  app_scrape_metadata :: "json option"

definition host_of_unit :: "relation_unit \<Rightarrow> (string \<times> string) list \<Rightarrow> (string \<times> string) list" where
  "host_of_unit u hosts =
     (let name = (case dict_get ''parca_scrape_unit_name'' (unit_data u) of
                    Some n \<Rightarrow> if n \<noteq> [] then n else unit_name u
                  | None \<Rightarrow> unit_name u);
          address = (case dict_get ''parca_scrape_unit_address'' (unit_data u) of
                       Some a \<Rightarrow> if a \<noteq> [] then Some a else dict_get ''parca_scrape_host'' (unit_data u)
                     | None \<Rightarrow> dict_get ''parca_scrape_host'' (unit_data u))
      in (case address of
            Some a \<Rightarrow> if name \<noteq> [] \<and> a \<noteq> [] then dict_set name a hosts else hosts
          | None \<Rightarrow> hosts))"

definition relation_hosts :: "relation \<Rightarrow> (string \<times> string) list" where
  "relation_hosts r = fold host_of_unit (units r) []"

section \<open>Labelling one job\<close>

text \<open>
  The methods of \<^verbatim>\<open>ProfilingEndpointConsumer\<close> keep their names, without the leading
  underscore: \<^verbatim>\<open>_set_juju_labels\<close>, \<^verbatim>\<open>_labeled_unitless_config\<close>, \<^verbatim>\<open>_labeled_unit_config\<close>,
  \<^verbatim>\<open>_labeled_static_job_config\<close>, \<^verbatim>\<open>_relation_hosts\<close>, \<^verbatim>\<open>_static_scrape_config\<close> and
  \<^verbatim>\<open>jobs\<close>.  Each \<^verbatim>\<open>for\<close> loop is a recursive function over the list being iterated, which
  carries the variables the loop assigns.  \<^verbatim>\<open>labels.copy()\<close> followed by \<^verbatim>\<open>update\<close> needs a
  dictionary: a list has \<^verbatim>\<open>copy\<close> but no \<^verbatim>\<open>update\<close>, and the other values have neither.
\<close>

definition set_juju_labels :: "topology \<Rightarrow> json \<Rightarrow> json \<Rightarrow> error + (string \<times> json) list" where
  "set_juju_labels lib labels scrape_metadata =
     (case labels of
        JDict d \<Rightarrow> ebind (label_matcher_dict lib scrape_metadata) (\<lambda>t. Inr (dict_update d t))
      | _ \<Rightarrow> Inl AttributeError)"

definition labeled_unitless_config :: "topology \<Rightarrow> json list \<Rightarrow> json \<Rightarrow> json \<Rightarrow> error + json" where
  "labeled_unitless_config lib targets labels scrape_metadata =
     ebind (set_juju_labels lib labels scrape_metadata)
       (\<lambda>juju_labels. Inr (JDict [(''targets'', JList targets), (''labels'', JDict juju_labels)]))"

definition labeled_unit_config ::
  "topology \<Rightarrow> string \<Rightarrow> string \<Rightarrow> string list \<Rightarrow> json \<Rightarrow> json \<Rightarrow> error + json" where
  "labeled_unit_config lib name host_address ports labels scrape_metadata =
     ebind (set_juju_labels lib labels scrape_metadata)
       (\<lambda>juju_labels.
          Inr (JDict [(''labels'', JDict (dict_set ''juju_unit'' (JStr name) juju_labels)),
                      (''targets'',
                       JList (if ports \<noteq> []
                              then map (\<lambda>port. JStr (host_address @ '':'' @ port)) ports
                              else [JStr host_address]))]))"

text \<open>The loop that splits the targets of one static config into wildcard ports and
  fully qualified targets.  \<^verbatim>\<open>host, port = target.split(":")\<close> needs a string and exactly
  two parts.\<close>

fun split_targets :: "json list \<Rightarrow> string list \<Rightarrow> json list \<Rightarrow> error + (string list \<times> json list)" where
  "split_targets [] ports unitless_targets = Inr (ports, unitless_targets)"
| "split_targets (target # rest) ports unitless_targets =
     (case target of
        JStr s \<Rightarrow>
          (case split_colon s of
             [host, port] \<Rightarrow>
               if strip host = ''*''
               then split_targets rest (ports @ [strip port]) unitless_targets
               else split_targets rest ports (unitless_targets @ [target])
           | _ \<Rightarrow> Inl ValueError)
      | _ \<Rightarrow> Inl AttributeError)"

text \<open>The loop over the hosts of the relation: one static config for each host, and
  \<^verbatim>\<open>juju_unit\<close> joins the source labels of the instance relabeling once.\<close>

fun label_hosts ::
  "topology \<Rightarrow> string list \<Rightarrow> json \<Rightarrow> json \<Rightarrow> (string \<times> string) list \<Rightarrow> json list \<Rightarrow> string list
     \<Rightarrow> error + (json list \<times> string list)" where
  "label_hosts lib ports labels scrape_metadata [] configs source_labels =
     Inr (configs, source_labels)"
| "label_hosts lib ports labels scrape_metadata ((host_name, host_address) # rest) configs source_labels =
     ebind (labeled_unit_config lib host_name host_address ports labels scrape_metadata)
       (\<lambda>static_config.
          label_hosts lib ports labels scrape_metadata rest (configs @ [static_config])
            (if ''juju_unit'' \<notin> set source_labels then source_labels @ [''juju_unit'']
             else source_labels))"

text \<open>The body of the loop over the static configs of the job, for one static config;
  \<open>static_configs\<close> is the value being iterated, which the body tests for truth.\<close>

definition label_static_config ::
  "topology \<Rightarrow> (string \<times> string) list \<Rightarrow> json \<Rightarrow> json \<Rightarrow> json \<Rightarrow> json list \<Rightarrow> string list
     \<Rightarrow> error + (json list \<times> string list)" where
  "label_static_config lib hosts scrape_metadata static_configs static_config configs source_labels =
     (case static_config of
        JDict d \<Rightarrow>
          (let labels = (if truthy static_configs
                         then (case dict_get ''labels'' d of Some l \<Rightarrow> l | None \<Rightarrow> JDict [])
                         else JDict []);
               all_targets = (case dict_get ''targets'' d of Some t \<Rightarrow> t | None \<Rightarrow> JList [])
           in ebind (py_iter all_targets) (\<lambda>targets.
              ebind (split_targets targets [] []) (\<lambda>(ports, unitless_targets).
              ebind (if unitless_targets \<noteq> []
                     then ebind (labeled_unitless_config lib unitless_targets labels scrape_metadata)
                            (\<lambda>unitless_config. Inr (configs @ [unitless_config]))
                     else Inr configs) (\<lambda>configs'.
              label_hosts lib ports labels scrape_metadata hosts configs' source_labels))))
      | _ \<Rightarrow> Inl AttributeError)"

fun label_static_configs ::
  "topology \<Rightarrow> (string \<times> string) list \<Rightarrow> json \<Rightarrow> json \<Rightarrow> json list \<Rightarrow> json list \<Rightarrow> string list
     \<Rightarrow> error + (json list \<times> string list)" where
  "label_static_configs lib hosts scrape_metadata static_configs [] configs source_labels =
     Inr (configs, source_labels)"
| "label_static_configs lib hosts scrape_metadata static_configs (static_config # rest) configs source_labels =
     ebind (label_static_config lib hosts scrape_metadata static_configs static_config
              configs source_labels)
       (\<lambda>(configs', source_labels').
          label_static_configs lib hosts scrape_metadata static_configs rest configs' source_labels')"

definition instance_relabel_config :: "string list \<Rightarrow> json" where
  "instance_relabel_config source_labels =
     JDict [(''source_labels'', JList (map JStr source_labels)),
            (''separator'', JStr ''_''),
            (''target_label'', JStr ''instance''),
            (''regex'', JStr ''(.*)'')]"

text \<open>
  \<^verbatim>\<open>_labeled_static_job_config\<close>.  \<^verbatim>\<open>job.get(k)\<close> of a missing key is \<^verbatim>\<open>None\<close>, here \<open>JNull\<close>.
  The result is \<^verbatim>\<open>labeled_job\<close>.  The Python appends the instance relabeling to the list
  object stored under \<^verbatim>\<open>relabel_configs\<close> in \<^verbatim>\<open>job\<close> when there is one; the caller below
  passes a job that has just been sanitized, which never has that key.
\<close>

definition resolved_job_name :: "string \<Rightarrow> (string \<times> json) list \<Rightarrow> string" where
  "resolved_job_name job_name_prefix job =
     (let name = (case dict_get ''job_name'' job of Some n \<Rightarrow> n | None \<Rightarrow> JNull)
      in if truthy name then job_name_prefix @ ''_'' @ py_str name else job_name_prefix)"

definition labeled_static_job_config ::
  "topology \<Rightarrow> (string \<times> json) list \<Rightarrow> string \<Rightarrow> (string \<times> string) list \<Rightarrow> json \<Rightarrow> error + json" where
  "labeled_static_job_config lib job job_name_prefix hosts scrape_metadata =
     (let job_name = resolved_job_name job_name_prefix job;
          labeled_job = dict_set ''job_name'' (JStr job_name) job;
          static_configs = (case dict_get ''static_configs'' job of Some v \<Rightarrow> v | None \<Rightarrow> JNull);
          labeled_job = dict_set ''static_configs'' (JList []) labeled_job
      in ebind (py_iter static_configs) (\<lambda>configs.
         ebind (label_static_configs lib hosts scrape_metadata static_configs configs []
                  [''juju_model'', ''juju_model_uuid'', ''juju_application''])
           (\<lambda>(labeled, source_labels).
         ebind (case dict_get ''relabel_configs'' job of
                  None \<Rightarrow> Inr [instance_relabel_config source_labels]
                | Some (JList rules) \<Rightarrow> Inr (rules @ [instance_relabel_config source_labels])
                | Some _ \<Rightarrow> Inl AttributeError)
           (\<lambda>relabel_configs.
              Inr (JDict (dict_set ''relabel_configs'' (JList relabel_configs)
                            (dict_set ''static_configs'' (JList labeled) labeled_job)))))))"

section \<open>The jobs of one relation and of all relations\<close>

fun label_jobs ::
  "topology \<Rightarrow> string \<Rightarrow> (string \<times> string) list \<Rightarrow> json \<Rightarrow> json list \<Rightarrow> json list
     \<Rightarrow> error + json list" where
  "label_jobs lib job_name_prefix hosts scrape_metadata [] labeled_job_configs =
     Inr labeled_job_configs"
| "label_jobs lib job_name_prefix hosts scrape_metadata (job # rest) labeled_job_configs =
     ebind (sanitize_scrape_configuration job) (\<lambda>sanitized.
     ebind (labeled_static_job_config lib sanitized job_name_prefix hosts scrape_metadata) (\<lambda>config.
       label_jobs lib job_name_prefix hosts scrape_metadata rest (labeled_job_configs @ [config])))"

definition static_scrape_config :: "topology \<Rightarrow> relation \<Rightarrow> error + json" where
  "static_scrape_config lib r =
     (if units r = [] then Inr (JList [])
      else
        (let jobs = (case app_scrape_jobs r of Some v \<Rightarrow> v | None \<Rightarrow> JList []) in
         if \<not> truthy jobs then Inr (JList [])
         else
           (let metadata = (case app_scrape_metadata r of Some v \<Rightarrow> v | None \<Rightarrow> JDict []) in
            if \<not> truthy metadata then Inr jobs
            else
              ebind (identifier_of lib metadata) (\<lambda>job_name_prefix.
              ebind (py_iter jobs) (\<lambda>js.
              ebind (label_jobs lib job_name_prefix (relation_hosts r) metadata js [])
                (\<lambda>labeled_job_configs. Inr (JList labeled_job_configs)))))))"

fun collect_jobs :: "topology \<Rightarrow> relation list \<Rightarrow> json list \<Rightarrow> error + json list" where
  "collect_jobs lib [] scrape_jobs = Inr scrape_jobs"
| "collect_jobs lib (r # rest) scrape_jobs =
     ebind (static_scrape_config lib r) (\<lambda>static_scrape_jobs.
       if truthy static_scrape_jobs
       then ebind (py_iter static_scrape_jobs) (\<lambda>js. collect_jobs lib rest (scrape_jobs @ js))
       else collect_jobs lib rest scrape_jobs)"

definition jobs :: "topology \<Rightarrow> relation list \<Rightarrow> error + json list" where
  "jobs lib relations = collect_jobs lib relations []"

section \<open>Reading a job\<close>

text \<open>A key of a job (or of a static config) that is a dictionary.\<close>

definition field :: "string \<Rightarrow> json \<Rightarrow> json option" where
  "field k j = (case j of JDict d \<Rightarrow> dict_get k d | _ \<Rightarrow> None)"

text \<open>A wildcard target is a string \<^verbatim>\<open>host:port\<close> whose host part is \<^verbatim>\<open>*\<close> once stripped; a
  static config is wildcard-only when its targets are a list of wildcard targets, and a job
  when its static configs are a list of such static configs.\<close>

definition is_wildcard_target :: "json \<Rightarrow> bool" where
  "is_wildcard_target target =
     (case target of
        JStr s \<Rightarrow> (case split_colon s of [host, port] \<Rightarrow> strip host = ''*'' | _ \<Rightarrow> False)
      | _ \<Rightarrow> False)"

definition wildcard_only_config :: "json \<Rightarrow> bool" where
  "wildcard_only_config static_config =
     (case static_config of
        JDict d \<Rightarrow>
          (case dict_get ''targets'' d of
             None \<Rightarrow> True
           | Some (JList ts) \<Rightarrow> list_all is_wildcard_target ts
           | Some _ \<Rightarrow> False)
      | _ \<Rightarrow> False)"

definition wildcard_only_job :: "(string \<times> json) list \<Rightarrow> bool" where
  "wildcard_only_job job =
     (case dict_get ''static_configs'' job of
        Some (JList groups) \<Rightarrow> list_all wildcard_only_config groups
      | _ \<Rightarrow> False)"

text \<open>The targets of a static config, its wildcard ports (the stripped port parts of its
  wildcard targets), its fully qualified targets (those that are not wildcard targets) and its
  own label map.\<close>

definition config_targets :: "(string \<times> json) list \<Rightarrow> json list" where
  "config_targets d =
     (case dict_get ''targets'' d of
        Some v \<Rightarrow> (case py_iter v of Inr ts \<Rightarrow> ts | Inl e \<Rightarrow> [])
      | None \<Rightarrow> [])"

definition wildcard_port :: "json \<Rightarrow> string" where
  "wildcard_port target =
     (case target of
        JStr s \<Rightarrow> (case split_colon s of [host, port] \<Rightarrow> strip port | _ \<Rightarrow> [])
      | _ \<Rightarrow> [])"

definition wildcard_ports :: "(string \<times> json) list \<Rightarrow> string list" where
  "wildcard_ports d = map wildcard_port (filter is_wildcard_target (config_targets d))"

definition qualified_targets :: "(string \<times> json) list \<Rightarrow> json list" where
  "qualified_targets d = filter (\<lambda>t. \<not> is_wildcard_target t) (config_targets d)"

definition config_labels :: "(string \<times> json) list \<Rightarrow> (string \<times> json) list" where
  "config_labels d = (case dict_get ''labels'' d of Some (JDict l) \<Rightarrow> l | _ \<Rightarrow> [])"

text \<open>
  What the specification says of a static entry of a concrete job.  A member-derived entry,
  for a host (name and address) and the wildcard ports of its static config: the label
  \<^verbatim>\<open>juju_unit\<close> is the name, every other topology label has the topology's value, and the
  targets are the address joined to each port, or the bare address when there is no port.
  An entry derived from fully qualified targets: every topology label has the topology's
  value, the targets are the fully qualified targets, and the key \<^verbatim>\<open>juju_unit\<close> is among
  the labels only if the static config's own labels or the topology labels have it.
\<close>

definition member_derived :: "(string \<times> json) list \<Rightarrow> string list \<Rightarrow> string \<times> string \<Rightarrow> json \<Rightarrow> bool" where
  "member_derived topo ports host e =
     (case field ''labels'' e of
        Some (JDict l) \<Rightarrow>
          dict_get ''juju_unit'' l = Some (JStr (fst host))
          \<and> list_all (\<lambda>(k, v). k = ''juju_unit'' \<or> dict_get k l = Some v) topo
          \<and> field ''targets'' e =
              Some (JList (if ports = [] then [JStr (snd host)]
                           else map (\<lambda>port. JStr (snd host @ '':'' @ port)) ports))
      | _ \<Rightarrow> False)"

definition qualified_derived ::
  "(string \<times> json) list \<Rightarrow> (string \<times> json) list \<Rightarrow> json list \<Rightarrow> json \<Rightarrow> bool" where
  "qualified_derived topo user targets e =
     (case field ''labels'' e of
        Some (JDict l) \<Rightarrow>
          list_all (\<lambda>(k, v). dict_get k l = Some v) topo
          \<and> (''juju_unit'' \<in> set (dict_keys l) \<longrightarrow>
                ''juju_unit'' \<in> set (dict_keys user) \<union> set (dict_keys topo))
          \<and> field ''targets'' e = Some (JList targets)
      | _ \<Rightarrow> False)"

text \<open>The entries of one static config: first the entry of its fully qualified targets, if
  it has any, then one member-derived entry for each host, in the order of the hosts.\<close>

definition qualified_count :: "json \<Rightarrow> nat" where
  "qualified_count g =
     (case g of JDict d \<Rightarrow> (if qualified_targets d = [] then 0 else 1) | _ \<Rightarrow> 0)"

definition config_entries ::
  "(string \<times> json) list \<Rightarrow> (string \<times> string) list \<Rightarrow> json \<Rightarrow> json list \<Rightarrow> bool" where
  "config_entries topo hosts g es =
     (case g of
        JDict d \<Rightarrow>
          length es = qualified_count g + length hosts
          \<and> list_all (qualified_derived topo (config_labels d) (qualified_targets d))
                (take (qualified_count g) es)
          \<and> list_all2 (member_derived topo (wildcard_ports d)) hosts (drop (qualified_count g) es)
      | _ \<Rightarrow> False)"


text \<open>A valid job: its static configs are a list of dictionaries, the targets of each (if
  given) a list of strings with exactly one colon, the labels of each (if given) a dictionary,
  and its relabeling rules (if given) a list.\<close>

definition valid_target :: "json \<Rightarrow> bool" where
  "valid_target target = (case target of JStr s \<Rightarrow> count_list s CHR '':'' = 1 | _ \<Rightarrow> False)"

definition valid_config :: "json \<Rightarrow> bool" where
  "valid_config static_config =
     (case static_config of
        JDict d \<Rightarrow>
          (case dict_get ''targets'' d of
             None \<Rightarrow> True
           | Some (JList ts) \<Rightarrow> list_all valid_target ts
           | Some _ \<Rightarrow> False)
          \<and> (case dict_get ''labels'' d of
                None \<Rightarrow> True
              | Some (JDict l) \<Rightarrow> True
              | Some _ \<Rightarrow> False)
      | _ \<Rightarrow> False)"

definition valid_job :: "(string \<times> json) list \<Rightarrow> bool" where
  "valid_job job =
     ((case dict_get ''static_configs'' job of
         Some (JList groups) \<Rightarrow> list_all valid_config groups
       | _ \<Rightarrow> False)
      \<and> (case dict_get ''relabel_configs'' job of
            None \<Rightarrow> True
          | Some (JList rules) \<Rightarrow> True
          | Some _ \<Rightarrow> False))"

definition existing_rules :: "(string \<times> json) list \<Rightarrow> json list" where
  "existing_rules job = (case dict_get ''relabel_configs'' job of Some (JList rules) \<Rightarrow> rules | _ \<Rightarrow> [])"

text \<open>The concrete job of a raw job that has no static config: it has the resolved name of
  the sanitized job, an empty list of static configs and the instance relabeling, on the three
  topology labels, as its only relabeling.\<close>

definition empty_concrete_job :: "string \<Rightarrow> json \<Rightarrow> json \<Rightarrow> bool" where
  "empty_concrete_job job_name_prefix raw out =
     (case sanitize_scrape_configuration raw of
        Inr job \<Rightarrow>
          field ''job_name'' out = Some (JStr (resolved_job_name job_name_prefix job))
          \<and> field ''static_configs'' out = Some (JList [])
          \<and> field ''relabel_configs'' out =
              Some (JList [instance_relabel_config
                             [''juju_model'', ''juju_model_uuid'', ''juju_application'']])
      | Inl e \<Rightarrow> False)"




section \<open>What the loops produce\<close>

text \<open>The static configs appended for one static config of the job: one result of
  \<^verbatim>\<open>_labeled_unitless_config\<close> if it has fully qualified targets, then one result of
  \<^verbatim>\<open>_labeled_unit_config\<close> for each host.\<close>

definition config_produces ::
  "topology \<Rightarrow> (string \<times> string) list \<Rightarrow> json \<Rightarrow> json \<Rightarrow> json list \<Rightarrow> bool" where
  "config_produces lib hosts scrape_metadata g es =
     (case g of
        JDict d \<Rightarrow>
          (let labels = (case dict_get ''labels'' d of Some l \<Rightarrow> l | None \<Rightarrow> JDict [])
           in length es = qualified_count g + length hosts
              \<and> list_all (\<lambda>e. labeled_unitless_config lib (qualified_targets d) labels scrape_metadata = Inr e)
                    (take (qualified_count g) es)
              \<and> list_all2 (\<lambda>(name, address) e.
                     labeled_unit_config lib name address (wildcard_ports d) labels scrape_metadata = Inr e)
                    hosts (drop (qualified_count g) es))
      | _ \<Rightarrow> False)"

section \<open>A concrete topology and concrete inputs\<close>

text \<open>
  Modelled from the spec: the topology library is not part of the sources.  The spec describes
  the scope identifier as a stable string combining group, instance and subgroup and the label
  set as the key-value pairs for group, instance and subgroup, excluding the member name.  The
  keys are those the instance relabeling names.  This topology is used for the concrete
  inputs only; the general theorems hold for every topology.
\<close>

definition spec_fields :: "json \<Rightarrow> error + (json \<times> json \<times> json)" where
  "spec_fields m =
     (case m of
        JDict d \<Rightarrow>
          (case (dict_get ''model'' d, dict_get ''model_uuid'' d, dict_get ''application'' d) of
             (Some model, Some uuid, Some app) \<Rightarrow> Inr (model, uuid, app)
           | _ \<Rightarrow> Inl KeyError)
      | _ \<Rightarrow> Inl TypeError)"

definition spec_topology :: topology where
  "spec_topology =
     \<lparr> identifier_of = (\<lambda>m. ebind (spec_fields m) (\<lambda>(model, uuid, app).
          Inr (py_str model @ ''_'' @ py_str uuid @ ''_'' @ py_str app))),
       label_matcher_dict = (\<lambda>m. ebind (spec_fields m) (\<lambda>(model, uuid, app).
          Inr [(''juju_model'', model), (''juju_model_uuid'', uuid), (''juju_application'', app)])) \<rparr>"

definition meta0 :: json where
  "meta0 = JDict [(''model'', JStr ''m''), (''model_uuid'', JStr ''u''), (''application'', JStr ''app'')]"

definition unit0 :: relation_unit where
  "unit0 = \<lparr> unit_name = ''app/0'',
             unit_data = [(''parca_scrape_unit_name'', ''app/0''),
                          (''parca_scrape_unit_address'', ''10.0.0.5'')] \<rparr>"

definition unit1 :: relation_unit where
  "unit1 = \<lparr> unit_name = ''app/1'',
             unit_data = [(''parca_scrape_unit_name'', ''app/1''),
                          (''parca_scrape_unit_address'', ''10.0.0.6'')] \<rparr>"

definition job_of_targets :: "string list \<Rightarrow> json" where
  "job_of_targets ts = JDict [(''static_configs'', JList [JDict [(''targets'', JList (map JStr ts))]])]"

definition colon_job :: "(string \<times> json) list" where
  "colon_job = [(''static_configs'', JList [JDict [(''targets'', JList [JStr ''[::1]:8080''])]])]"

definition rel_no_metadata :: relation where
  "rel_no_metadata =
     \<lparr> units = [unit0],
       app_scrape_jobs = Some (JList [job_of_targets [''*:8080'']]),
       app_scrape_metadata = None \<rparr>"

definition rel_empty_metadata :: relation where
  "rel_empty_metadata =
     \<lparr> units = [unit0, unit1],
       app_scrape_jobs = Some (JList [job_of_targets [''*:9090'']]),
       app_scrape_metadata = Some (JDict []) \<rparr>"

definition rel_no_units :: relation where
  "rel_no_units =
     \<lparr> units = [],
       app_scrape_jobs = Some (JList [job_of_targets [''*:8080'']]),
       app_scrape_metadata = Some meta0 \<rparr>"

definition rel_no_address :: relation where
  "rel_no_address =
     \<lparr> units = [\<lparr> unit_name = ''app/0'', unit_data = [] \<rparr>],
       app_scrape_jobs = Some (JList [job_of_targets [''*:8080'']]),
       app_scrape_metadata = Some meta0 \<rparr>"



definition hosts0 :: "(string \<times> string) list" where
  "hosts0 = [(''app/0'', ''10.0.0.5''), (''app/1'', ''10.0.0.6'')]"

definition topo0 :: "(string \<times> json) list" where
  "topo0 = [(''juju_model'', JStr ''m''), (''juju_model_uuid'', JStr ''u''),
            (''juju_application'', JStr ''app'')]"

definition mixed_config :: json where
  "mixed_config =
     JDict [(''targets'', JList [JStr ''10.1.32.215:7000'', JStr ''*:8000'']),
            (''labels'', JDict [(''some-key'', JStr ''some-value'')])]"

definition mixed_job :: "(string \<times> json) list" where
  "mixed_job = [(''static_configs'', JList [mixed_config])]"

definition unit_label_job :: "(string \<times> json) list" where
  "unit_label_job =
     [(''static_configs'',
       JList [JDict [(''targets'', JList [JStr ''10.1.32.215:7000'']),
                     (''labels'', JDict [(''juju_unit'', JStr ''other/7'')])]])]"

definition collide_job :: "(string \<times> json) list" where
  "collide_job =
     [(''static_configs'',
       JList [JDict [(''targets'', JList [JStr ''10.1.32.215:7000'', JStr ''*:8000'']),
                     (''labels'', JDict [(''juju_model'', JStr ''user-model''),
                                         (''juju_unit'', JStr ''user-unit'')])]])]"




definition rel_two_units :: "relation_unit list \<Rightarrow> relation" where
  "rel_two_units us =
     \<lparr> units = us,
       app_scrape_jobs = Some (JList [job_of_targets [''*:8080'']]),
       app_scrape_metadata = Some meta0 \<rparr>"

section \<open>Errors and how they propagate\<close>

lemma ebind_Inl [simp]: "ebind (Inl e) f = Inl e"
  by (simp add: ebind_def)

lemma ebind_Inr [simp]: "ebind (Inr x) f = f x"
  by (simp add: ebind_def)

lemma ebind_eq_Inr: "ebind m f = Inr y \<longleftrightarrow> (\<exists>x. m = Inr x \<and> f x = Inr y)"
  by (cases m) simp_all

lemma isl_ebind: "isl (ebind m f) \<longleftrightarrow> isl m \<or> (\<exists>x. m = Inr x \<and> isl (f x))"
  by (cases m) simp_all

lemma split_colon_not_Nil: "split_colon s \<noteq> []"
  by (induction s) (auto split: list.splits)

lemma length_split_colon: "length (split_colon s) = Suc (count_list s CHR '':'')"
  by (induction s) (auto split: list.splits simp: split_colon_not_Nil)

lemma split_colon_two: "(\<exists>host port. split_colon s = [host, port]) \<longleftrightarrow> count_list s CHR '':'' = 1"
proof -
  have "(\<exists>host port. split_colon s = [host, port]) \<longleftrightarrow> length (split_colon s) = 2"
    by (auto simp: length_Suc_conv numeral_2_eq_2)
  then show ?thesis by (simp add: length_split_colon)
qed

lemma split_targets_head_bad:
  assumes "count_list t CHR '':'' \<noteq> 1"
  shows "split_targets (JStr t # rest) ports unitless = Inl ValueError"
proof -
  have "\<nexists>host port. split_colon t = [host, port]"
    using assms split_colon_two by blast
  then show ?thesis
    by (auto split: list.splits)
qed

lemma split_targets_bad:
  "JStr t \<in> set ts \<Longrightarrow> count_list t CHR '':'' \<noteq> 1 \<Longrightarrow> isl (split_targets ts ports unitless)"
proof (induction ts arbitrary: ports unitless)
  case Nil
  then show ?case by simp
next
  case (Cons a ts)
  show ?case
  proof (cases "a = JStr t")
    case True
    then show ?thesis using split_targets_head_bad [OF Cons.prems(2)] by simp
  next
    case False
    then have "JStr t \<in> set ts" using Cons.prems(1) by simp
    then have "\<And>p u. isl (split_targets ts p u)" using Cons.IH Cons.prems(2) by blast
    then show ?thesis
      by (auto split: json.splits list.splits)
  qed
qed

lemma label_static_config_bad:
  assumes "dict_get ''targets'' g = Some (JList ts)"
    and "JStr t \<in> set ts" and "count_list t CHR '':'' \<noteq> 1"
  shows "isl (label_static_config lib hosts meta scs (JDict g) configs source_labels)"
proof -
  have "isl (split_targets ts [] [])" using split_targets_bad [OF assms(2,3)] .
  then show ?thesis using assms(1)
    by (simp add: label_static_config_def isl_ebind Let_def)
qed

lemma label_static_configs_bad:
  assumes "JDict g \<in> set groups" and "dict_get ''targets'' g = Some (JList ts)"
    and "JStr t \<in> set ts" and "count_list t CHR '':'' \<noteq> 1"
  shows "isl (label_static_configs lib hosts meta scs groups configs source_labels)"
  using assms(1)
proof (induction groups arbitrary: configs source_labels)
  case Nil
  then show ?case by simp
next
  case (Cons a groups)
  show ?case
  proof (cases "a = JDict g")
    case True
    then show ?thesis using label_static_config_bad [OF assms(2,3,4)]
      by (simp add: isl_ebind)
  next
    case False
    then have "JDict g \<in> set groups" using Cons.prems by simp
    then have ih: "\<And>c s. isl (label_static_configs lib hosts meta scs groups c s)"
      using Cons.IH by blast
    show ?thesis using ih
      by (cases "label_static_config lib hosts meta scs a configs source_labels") auto
  qed
qed

lemma labeled_static_job_config_bad:
  assumes "dict_get ''static_configs'' job = Some (JList groups)"
    and "JDict g \<in> set groups" and "dict_get ''targets'' g = Some (JList ts)"
    and "JStr t \<in> set ts" and "count_list t CHR '':'' \<noteq> 1"
  shows "isl (labeled_static_job_config lib job prefix hosts meta)"
  using label_static_configs_bad [OF assms(2-5)] assms(1)
  by (simp add: labeled_static_job_config_def isl_ebind Let_def)


text \<open>
  C10.  \<^verbatim>\<open>host, port = target.split(":")\<close> raises \<^verbatim>\<open>ValueError\<close> for every target string whose
  number of colons is not one (none, or two and more), and succeeds for a string with exactly
  one; a job that holds such a target in one of its static configs has no expansion: labelling
  it raises.
\<close>

theorem target_colon_count:
  assumes "dict_get ''static_configs'' job = Some (JList groups)"
    and "JDict g \<in> set groups" and "dict_get ''targets'' g = Some (JList ts)"
    and "JStr t \<in> set ts" and "count_list t CHR '':'' \<noteq> 1"
  shows "split_targets (JStr t # rest) ports unitless = Inl ValueError
       \<and> (\<exists>e. labeled_static_job_config lib job prefix hosts meta = Inl e)
       \<and> (count_list t' CHR '':'' = 1 \<longrightarrow> (\<exists>r. split_targets [JStr t'] ports unitless = Inr r))"
proof (intro conjI impI)
  show "split_targets (JStr t # rest) ports unitless = Inl ValueError"
    using assms(5) by (rule split_targets_head_bad)
  have "isl (labeled_static_job_config lib job prefix hosts meta)"
    using assms by (rule labeled_static_job_config_bad)
  then show "\<exists>e. labeled_static_job_config lib job prefix hosts meta = Inl e"
    by (cases "labeled_static_job_config lib job prefix hosts meta") simp_all
next
  assume "count_list t' CHR '':'' = 1"
  then obtain host port where "split_colon t' = [host, port]"
    using split_colon_two by blast
  then show "\<exists>r. split_targets [JStr t'] ports unitless = Inr r"
    by simp
qed

theorem target_colon_count_witness:
  "count_list ''[::1]:8080'' CHR '':'' \<noteq> 1
   \<and> split_targets [JStr ''[::1]:8080''] [] [] = Inl ValueError
   \<and> (\<exists>e. labeled_static_job_config spec_topology colon_job ''p'' [] meta0 = Inl e)
   \<and> (\<exists>r. split_targets [JStr ''*:80''] [] [] = Inr r)"
  using target_colon_count [of colon_job "[JDict [(''targets'', JList [JStr ''[::1]:8080''])]]"
      "[(''targets'', JList [JStr ''[::1]:8080''])]" "[JStr ''[::1]:8080'']" "''[::1]:8080''"
      "[]" "[]" "[]" spec_topology "''p''" "[]" meta0 "''*:80''"]
  by (simp add: colon_job_def dict_get_def)

section \<open>Dictionaries\<close>

lemma dict_get_dict_set: "dict_get k (dict_set k' v d) = (if k = k' then Some v else dict_get k d)"
  by (simp add: dict_get_def dict_set_def update_conv')

lemma keys_dict_set: "set (dict_keys (dict_set k v d)) = insert k (set (dict_keys d))"
  using dom_update [of k v d] by (simp add: dict_keys_def dict_set_def)

lemma keys_dict_update: "set (dict_keys (dict_update d e)) = set (dict_keys d) \<union> set (dict_keys e)"
  unfolding dict_update_def
proof (induction e arbitrary: d)
  case Nil
  then show ?case by (simp add: dict_keys_def)
next
  case (Cons p e)
  obtain k v where p: "p = (k, v)" by (cases p)
  have "set (dict_keys (fold (\<lambda>(k, v). dict_set k v) e (dict_set k v d)))
      = set (dict_keys (dict_set k v d)) \<union> set (dict_keys e)"
    by (rule Cons.IH)
  then show ?case
    by (simp add: p keys_dict_set) (simp add: dict_keys_def)
qed

lemma map_of_rev_distinct: "distinct (map fst xs) \<Longrightarrow> map_of (rev xs) = map_of xs"
proof (induction xs)
  case Nil
  then show ?case by simp
next
  case (Cons p xs)
  obtain k v where p: "p = (k, v)" by (cases p)
  from Cons.prems p have notin: "map_of xs k = None"
    by (simp add: map_of_eq_None_iff)
  have "map_of (rev (p # xs)) = map_of [(k, v)] ++ map_of (rev xs)"
    using p by simp
  also have "\<dots> = map_of [(k, v)] ++ map_of xs"
    using Cons by simp
  also have "\<dots> = map_of (p # xs)"
    using notin p by (auto simp: map_add_def fun_eq_iff split: option.splits)
  finally show ?case .
qed

lemma map_of_dict_update: "map_of (dict_update d e) = map_of d ++ map_of (rev e)"
  unfolding dict_update_def
proof (induction e arbitrary: d)
  case Nil
  then show ?case by simp
next
  case (Cons p e)
  obtain k v where p: "p = (k, v)" by (cases p)
  have "map_of (fold (\<lambda>(k, v). dict_set k v) e (dict_set k v d))
      = map_of (dict_set k v d) ++ map_of (rev e)"
    by (rule Cons.IH)
  then have "map_of (fold (\<lambda>(k, v). dict_set k v) (p # e) d)
      = (map_of d)(k \<mapsto> v) ++ map_of (rev e)"
    by (simp add: p dict_set_def update_conv')
  also have "\<dots> = map_of d ++ map_of (rev (p # e))"
    by (simp add: p)
  finally show ?case .
qed

lemma dict_get_dict_update:
  "distinct (dict_keys e) \<Longrightarrow>
   dict_get k (dict_update d e) = (case dict_get k e of Some v \<Rightarrow> Some v | None \<Rightarrow> dict_get k d)"
  by (simp add: dict_get_def dict_keys_def map_of_dict_update map_of_rev_distinct map_add_def
      split: option.splits)

lemma distinct_filter_keys: "distinct (dict_keys d) \<Longrightarrow> distinct (dict_keys (filter P d))"
  by (simp add: dict_keys_def distinct_map_filter)

lemma dict_get_filter:
  "dict_get k (filter (\<lambda>(key, value). key \<in> A) d) = (if k \<in> A then dict_get k d else None)"
  unfolding dict_get_def
  by (induction d) auto

section \<open>Sanitizing\<close>

text \<open>
  C5, as the code has it.  Sanitizing a dictionary never raises, and the result has allow-listed
  keys only.  Every allow-listed key of the raw job keeps its value, so a raw job that declares
  \<^verbatim>\<open>static_configs\<close>, even as the empty list, keeps what it declared; the default static
  config with the single target \<^verbatim>\<open>*:80\<close> is what a raw job without the key \<^verbatim>\<open>static_configs\<close>
  gets.
\<close>

theorem sanitize_allowed_keys:
  assumes "distinct (dict_keys job)"
  shows "\<exists>d. sanitize_scrape_configuration (JDict job) = Inr d
       \<and> set (dict_keys d) \<subseteq> ALLOWED_KEYS
       \<and> (\<forall>k\<in>ALLOWED_KEYS. \<forall>v. dict_get k job = Some v \<longrightarrow> dict_get k d = Some v)
       \<and> (dict_get ''static_configs'' job = None \<longrightarrow>
            dict_get ''static_configs'' d = Some (JList [JDict [(''targets'', JList [JStr ''*:80''])]]))"
proof -
  let ?f = "filter (\<lambda>(key, value). key \<in> ALLOWED_KEYS) job"
  let ?d = "dict_update DEFAULT_JOB ?f"
  have run: "sanitize_scrape_configuration (JDict job) = Inr ?d"
    by (simp add: sanitize_scrape_configuration_def)
  have dist: "distinct (dict_keys ?f)"
    using assms by (rule distinct_filter_keys)
  have "set (dict_keys ?f) \<subseteq> ALLOWED_KEYS"
    by (auto simp: dict_keys_def)
  moreover have "set (dict_keys DEFAULT_JOB) \<subseteq> ALLOWED_KEYS"
    by (simp add: dict_keys_def DEFAULT_JOB_def ALLOWED_KEYS_def)
  ultimately have keys: "set (dict_keys ?d) \<subseteq> ALLOWED_KEYS"
    by (simp add: keys_dict_update)
  have kept: "\<forall>k\<in>ALLOWED_KEYS. \<forall>v. dict_get k job = Some v \<longrightarrow> dict_get k ?d = Some v"
    by (simp add: dict_get_dict_update [OF dist] dict_get_filter)
  have dflt: "dict_get ''static_configs'' job = None \<longrightarrow>
      dict_get ''static_configs'' ?d = Some (JList [JDict [(''targets'', JList [JStr ''*:80''])]])"
    by (simp add: dict_get_dict_update [OF dist] dict_get_filter)
       (simp add: dict_get_def DEFAULT_JOB_def)
  show ?thesis
  proof (intro exI conjI)
    show "sanitize_scrape_configuration (JDict job) = Inr ?d" by (rule run)
    show "set (dict_keys ?d) \<subseteq> ALLOWED_KEYS" by (rule keys)
    show "\<forall>k\<in>ALLOWED_KEYS. \<forall>v. dict_get k job = Some v \<longrightarrow> dict_get k ?d = Some v"
      by (rule kept)
    show "dict_get ''static_configs'' job = None \<longrightarrow>
      dict_get ''static_configs'' ?d = Some (JList [JDict [(''targets'', JList [JStr ''*:80''])]])"
      by (rule dflt)
  qed
qed

theorem sanitize_allowed_keys_witness:
  "\<exists>d. sanitize_scrape_configuration
          (JDict [(''job_name'', JStr ''x''), (''metrics_path'', JStr ''/m'')]) = Inr d
       \<and> set (dict_keys d) \<subseteq> ALLOWED_KEYS
       \<and> dict_get ''job_name'' d = Some (JStr ''x'')
       \<and> dict_get ''static_configs'' d = Some (JList [JDict [(''targets'', JList [JStr ''*:80''])]])"
  using sanitize_allowed_keys [of "[(''job_name'', JStr ''x''), (''metrics_path'', JStr ''/m'')]"]
  by (simp add: dict_keys_def dict_get_def ALLOWED_KEYS_def)

text \<open>C5.  A raw job that declares the empty list of static configs is sanitized to itself,
  which is not the default job.\<close>

theorem sanitize_empty_groups_counterexample:
  "sanitize_scrape_configuration (JDict [(''static_configs'', JList [])])
     = Inr [(''static_configs'', JList [])]
   \<and> sanitize_scrape_configuration (JDict [(''static_configs'', JList [])]) \<noteq> Inr DEFAULT_JOB"
  by (simp add: sanitize_scrape_configuration_def dict_update_def dict_set_def DEFAULT_JOB_def
      ALLOWED_KEYS_def)

section \<open>The aggregation over the relations\<close>

lemma collect_jobs_acc:
  "collect_jobs lib rs acc = ebind (collect_jobs lib rs []) (\<lambda>xs. Inr (acc @ xs))"
proof (induction rs arbitrary: acc)
  case Nil
  then show ?case by simp
next
  case (Cons r rs)
  have ih: "\<And>acc. collect_jobs lib rs acc = ebind (collect_jobs lib rs []) (\<lambda>xs. Inr (acc @ xs))"
    by (rule Cons.IH)
  show ?case
  proof (cases "static_scrape_config lib r")
    case (Inl e)
    then show ?thesis by simp
  next
    case (Inr s)
    show ?thesis
    proof (cases "truthy s")
      case False
      then show ?thesis using Inr ih [of acc] by simp
    next
      case True
      show ?thesis
      proof (cases "py_iter s")
        case (Inl e)
        then show ?thesis using Inr True by simp
      next
        case js: (Inr js)
        show ?thesis
          using Inr True js ih [of "acc @ js"] ih [of js]
          by (cases "collect_jobs lib rs []") simp_all
      qed
    qed
  qed
qed

lemma jobs_Cons:
  "jobs lib (r # rs) =
     ebind (static_scrape_config lib r) (\<lambda>s.
     ebind (if truthy s then py_iter s else Inr []) (\<lambda>js.
     ebind (jobs lib rs) (\<lambda>xs. Inr (js @ xs))))"
proof (cases "static_scrape_config lib r")
  case (Inl e)
  then show ?thesis by (simp add: jobs_def)
next
  case (Inr s)
  show ?thesis
  proof (cases "truthy s")
    case False
    then show ?thesis using Inr
      by (cases "collect_jobs lib rs []") (simp_all add: jobs_def)
  next
    case True
    show ?thesis
    proof (cases "py_iter s")
      case (Inl e)
      then show ?thesis using Inr True by (simp add: jobs_def)
    next
      case js: (Inr js)
      have "collect_jobs lib rs js = ebind (collect_jobs lib rs []) (\<lambda>xs. Inr (js @ xs))"
        by (rule collect_jobs_acc)
      then show ?thesis using Inr True js by (simp add: jobs_def)
    qed
  qed
qed

lemma jobs_Nil: "jobs lib [] = Inr []"
  by (simp add: jobs_def)

lemma jobs_append:
  "jobs lib (rs @ rs') = ebind (jobs lib rs) (\<lambda>xs. ebind (jobs lib rs') (\<lambda>ys. Inr (xs @ ys)))"
proof (induction rs)
  case Nil
  then show ?case by (cases "jobs lib rs'") (simp_all add: jobs_Nil)
next
  case (Cons r rs)
  show ?case
  proof (cases "static_scrape_config lib r")
    case (Inl e)
    then show ?thesis by (simp add: jobs_Cons)
  next
    case (Inr s)
    show ?thesis
    proof (cases "if truthy s then py_iter s else Inr []")
      case (Inl e)
      then show ?thesis using Inr by (simp add: jobs_Cons)
    next
      case js: (Inr js)
      show ?thesis
        using Inr js Cons
        by (cases "jobs lib rs"; cases "jobs lib rs'") (simp_all add: jobs_Cons)
    qed
  qed
qed


text \<open>
  C2, as the code has it.  A relation that has units and a non-empty list of scrape jobs but
  no scrape metadata (the key is not set, or holds an empty document) contributes its scrape
  jobs as they are, neither sanitized nor labelled nor renamed, between the jobs of the
  relations before it and those of the relations after it.
\<close>

theorem no_metadata_raw_jobs:
  assumes "units r \<noteq> []" and "app_scrape_jobs r = Some (JList raw)" and "raw \<noteq> []"
    and "\<forall>m. app_scrape_metadata r = Some m \<longrightarrow> \<not> truthy m"
    and "jobs lib before = Inr xs" and "jobs lib after = Inr ys"
  shows "jobs lib (before @ r # after) = Inr (xs @ raw @ ys)"
proof -
  have "static_scrape_config lib r = Inr (JList raw)"
    using assms(1-4) by (cases "app_scrape_metadata r") (simp_all add: static_scrape_config_def)
  then have "jobs lib (r # after) = Inr (raw @ ys)"
    using assms(3,6) by (simp add: jobs_Cons)
  then show ?thesis
    using assms(5) by (simp add: jobs_append)
qed

theorem no_metadata_raw_jobs_witness:
  "units rel_empty_metadata \<noteq> []
   \<and> jobs spec_topology [rel_empty_metadata, rel_no_units] = Inr [job_of_targets [''*:9090'']]"
proof -
  have a: "jobs spec_topology [] = Inr []" by (rule jobs_Nil)
  have b: "jobs spec_topology [rel_no_units] = Inr []"
    by (simp add: jobs_Cons jobs_Nil static_scrape_config_def rel_no_units_def)
  show ?thesis
    using no_metadata_raw_jobs [of rel_empty_metadata "[job_of_targets [''*:9090'']]"
        spec_topology "[]" "[]" "[rel_no_units]" "[]", OF _ _ _ _ a b]
    by (simp add: rel_empty_metadata_def)
qed

text \<open>C2.  A relation with a unit and a scrape job and no scrape metadata: the aggregation
  returns the raw scrape job.\<close>

theorem no_metadata_counterexample:
  "jobs spec_topology [rel_no_metadata] = Inr [job_of_targets [''*:8080'']]"
  by (simp add: jobs_Cons jobs_Nil static_scrape_config_def rel_no_metadata_def)

section \<open>A relation whose units advertise no address\<close>

lemma split_targets_wildcards:
  "list_all is_wildcard_target ts \<Longrightarrow> \<exists>ps. split_targets ts ports unitless = Inr (ps, unitless)"
proof (induction ts arbitrary: ports)
  case Nil
  then show ?case by simp
next
  case (Cons t ts)
  from Cons.prems have t: "is_wildcard_target t" and ts: "list_all is_wildcard_target ts"
    by simp_all
  from t obtain s host port where s: "t = JStr s" "split_colon s = [host, port]" "strip host = ''*''"
    by (auto simp: is_wildcard_target_def split: json.splits list.splits)
  from Cons.IH [OF ts, of "ports @ [strip port]"] show ?case
    using s by simp
qed

lemma label_static_config_wildcards:
  assumes "wildcard_only_config g"
  shows "label_static_config lib [] meta scs g configs source_labels = Inr (configs, source_labels)"
proof -
  from assms obtain d where g: "g = JDict d"
    by (auto simp: wildcard_only_config_def split: json.splits)
  show ?thesis
  proof (cases "dict_get ''targets'' d")
    case None
    then show ?thesis using g by (simp add: label_static_config_def Let_def)
  next
    case (Some v)
    with assms g obtain ts where v: "v = JList ts" and ts: "list_all is_wildcard_target ts"
      by (auto simp: wildcard_only_config_def split: json.splits)
    from split_targets_wildcards [OF ts, of "[]" "[]"]
    obtain ps where "split_targets ts [] [] = Inr (ps, [])" by blast
    then show ?thesis using g Some v by (simp add: label_static_config_def Let_def)
  qed
qed

lemma label_static_configs_wildcards:
  "list_all wildcard_only_config groups \<Longrightarrow>
   label_static_configs lib [] meta scs groups configs source_labels = Inr (configs, source_labels)"
  by (induction groups) (simp_all add: label_static_config_wildcards)

lemma sanitized_keys:
  assumes "sanitize_scrape_configuration raw = Inr job"
  shows "set (dict_keys job) \<subseteq> ALLOWED_KEYS"
proof -
  from assms obtain d where raw: "raw = JDict d"
    by (cases raw) (simp_all add: sanitize_scrape_configuration_def)
  let ?f = "filter (\<lambda>(key, value). key \<in> ALLOWED_KEYS) d"
  have job: "job = dict_update DEFAULT_JOB ?f"
    using assms raw by (simp add: sanitize_scrape_configuration_def)
  have "set (dict_keys ?f) \<subseteq> ALLOWED_KEYS"
    by (auto simp: dict_keys_def)
  moreover have "set (dict_keys DEFAULT_JOB) \<subseteq> ALLOWED_KEYS"
    by (simp add: dict_keys_def DEFAULT_JOB_def ALLOWED_KEYS_def)
  ultimately show ?thesis
    by (simp add: job keys_dict_update)
qed

lemma dict_get_not_key: "k \<notin> set (dict_keys d) \<Longrightarrow> dict_get k d = None"
  by (simp add: dict_get_def dict_keys_def map_of_eq_None_iff)

lemma sanitized_no_relabel_configs:
  assumes "sanitize_scrape_configuration raw = Inr job"
  shows "dict_get ''relabel_configs'' job = None"
proof -
  have "''relabel_configs'' \<notin> ALLOWED_KEYS" by (simp add: ALLOWED_KEYS_def)
  then have "''relabel_configs'' \<notin> set (dict_keys job)"
    using sanitized_keys [OF assms] by blast
  then show ?thesis by (rule dict_get_not_key)
qed

lemma labeled_static_job_config_wildcards:
  assumes "wildcard_only_job job" and "dict_get ''relabel_configs'' job = None"
  shows "\<exists>out. labeled_static_job_config lib job prefix [] meta = Inr out
       \<and> field ''job_name'' out = Some (JStr (resolved_job_name prefix job))
       \<and> field ''static_configs'' out = Some (JList [])
       \<and> field ''relabel_configs'' out =
           Some (JList [instance_relabel_config [''juju_model'', ''juju_model_uuid'', ''juju_application'']])"
proof -
  from assms(1) obtain groups where g: "dict_get ''static_configs'' job = Some (JList groups)"
    and all: "list_all wildcard_only_config groups"
    by (auto simp: wildcard_only_job_def split: option.splits json.splits)
  show ?thesis
    using g assms(2) label_static_configs_wildcards [OF all]
    by (simp add: labeled_static_job_config_def Let_def field_def dict_get_dict_set)
qed

lemma label_jobs_wildcards:
  assumes "\<forall>raw\<in>set raws. \<exists>job. sanitize_scrape_configuration raw = Inr job \<and> wildcard_only_job job"
  shows "\<exists>outs. label_jobs lib prefix [] meta raws acc = Inr (acc @ outs)
       \<and> list_all2 (empty_concrete_job prefix) raws outs"
  using assms
proof (induction raws arbitrary: acc)
  case Nil
  then show ?case by simp
next
  case (Cons raw raws)
  from Cons.prems obtain job where job: "sanitize_scrape_configuration raw = Inr job"
    and wild: "wildcard_only_job job" by auto
  from labeled_static_job_config_wildcards [OF wild sanitized_no_relabel_configs [OF job]]
  obtain out where out: "labeled_static_job_config lib job prefix [] meta = Inr out"
    and props: "field ''job_name'' out = Some (JStr (resolved_job_name prefix job))"
      "field ''static_configs'' out = Some (JList [])"
      "field ''relabel_configs'' out =
         Some (JList [instance_relabel_config [''juju_model'', ''juju_model_uuid'', ''juju_application'']])"
    by blast
  have first: "empty_concrete_job prefix raw out"
    using job props by (simp add: empty_concrete_job_def)
  from Cons.prems have "\<forall>raw\<in>set raws. \<exists>job. sanitize_scrape_configuration raw = Inr job \<and> wildcard_only_job job"
    by simp
  from Cons.IH [OF this, of "acc @ [out]"]
  obtain outs where outs: "label_jobs lib prefix [] meta raws (acc @ [out]) = Inr ((acc @ [out]) @ outs)"
    and all: "list_all2 (empty_concrete_job prefix) raws outs" by blast
  have "label_jobs lib prefix [] meta (raw # raws) acc = Inr (acc @ out # outs)"
    using job out outs by simp
  moreover have "list_all2 (empty_concrete_job prefix) (raw # raws) (out # outs)"
    using first all by simp
  ultimately show ?case by blast
qed

text \<open>
  C6, as the code has it.  Take a relation with scrape metadata, whose scrape jobs all are
  wildcard-only once sanitized, and from whose units no host is known.  If the relation has
  units (none of them advertising an address), every scrape job is emitted, in order, as a
  concrete job with its resolved name, no static config and the instance relabeling alone,
  and nothing is raised.  If the relation has no unit at all, it contributes no job.
\<close>

theorem empty_membership:
  assumes "app_scrape_jobs r = Some (JList raws)" and "raws \<noteq> []"
    and "app_scrape_metadata r = Some m" and "truthy m"
    and "identifier_of lib m = Inr prefix"
    and "relation_hosts r = []"
    and "\<forall>raw\<in>set raws. \<exists>job. sanitize_scrape_configuration raw = Inr job \<and> wildcard_only_job job"
  shows "(units r = [] \<longrightarrow> jobs lib [r] = Inr [])
       \<and> (units r \<noteq> [] \<longrightarrow>
            (\<exists>outs. jobs lib [r] = Inr outs \<and> list_all2 (empty_concrete_job prefix) raws outs))"
proof (intro conjI impI)
  assume "units r = []"
  then show "jobs lib [r] = Inr []"
    by (simp add: jobs_Cons jobs_Nil static_scrape_config_def)
next
  assume u: "units r \<noteq> []"
  from label_jobs_wildcards [OF assms(7), of lib prefix m "[]"]
  obtain outs where outs: "label_jobs lib prefix [] m raws [] = Inr outs"
    and all: "list_all2 (empty_concrete_job prefix) raws outs" by auto
  have "outs \<noteq> []" using all assms(2) by (auto simp: list_all2_Nil2)
  moreover have "static_scrape_config lib r = Inr (JList outs)"
    using u assms(1-6) outs by (simp add: static_scrape_config_def)
  ultimately have "jobs lib [r] = Inr outs"
    by (simp add: jobs_Cons jobs_Nil)
  then show "\<exists>outs. jobs lib [r] = Inr outs \<and> list_all2 (empty_concrete_job prefix) raws outs"
    using all by blast
qed

lemma sanitize_job_of_targets:
  "sanitize_scrape_configuration (job_of_targets ts)
     = Inr [(''static_configs'', JList [JDict [(''targets'', JList (map JStr ts))]])]"
  by (simp add: sanitize_scrape_configuration_def job_of_targets_def dict_update_def dict_set_def
      DEFAULT_JOB_def ALLOWED_KEYS_def)

theorem empty_membership_witness:
  "units rel_no_address \<noteq> [] \<and> relation_hosts rel_no_address = []
   \<and> (\<exists>outs. jobs spec_topology [rel_no_address] = Inr outs
         \<and> list_all2 (empty_concrete_job ''m_u_app'') [job_of_targets [''*:8080'']] outs)"
proof -
  have id: "identifier_of spec_topology meta0 = Inr ''m_u_app''"
    by (simp add: spec_topology_def spec_fields_def meta0_def dict_get_def py_str_def)
  have hosts: "relation_hosts rel_no_address = []"
    by (simp add: relation_hosts_def rel_no_address_def host_of_unit_def dict_get_def)
  have wild: "\<forall>raw\<in>set [job_of_targets [''*:8080'']].
      \<exists>job. sanitize_scrape_configuration raw = Inr job \<and> wildcard_only_job job"
    by (simp add: sanitize_job_of_targets wildcard_only_job_def wildcard_only_config_def
        is_wildcard_target_def dict_get_def strip_def is_space_def)
  have m: "truthy meta0" by (simp add: meta0_def)
  show ?thesis
    using empty_membership [of rel_no_address "[job_of_targets [''*:8080'']]" meta0
        spec_topology "''m_u_app''", OF _ _ _ m id hosts wild] hosts
    by (simp add: rel_no_address_def)
qed

text \<open>C6.  A relation without units, with scrape metadata and a wildcard-only scrape job:
  no host is known and no job is emitted.\<close>

theorem no_units_counterexample:
  "relation_hosts rel_no_units = [] \<and> jobs spec_topology [rel_no_units] = Inr []"
  by (simp add: jobs_Cons jobs_Nil static_scrape_config_def rel_no_units_def relation_hosts_def)

section \<open>A target without a colon\<close>






section \<open>The labelling loops in closed form\<close>

lemma split_targets_closed:
  "split_targets ts ps us = Inr (ps', us') \<Longrightarrow>
   ps' = ps @ map wildcard_port (filter is_wildcard_target ts)
   \<and> us' = us @ filter (\<lambda>t. \<not> is_wildcard_target t) ts"
proof (induction ts arbitrary: ps us)
  case Nil
  then show ?case by simp
next
  case (Cons t ts)
  from Cons.prems obtain s where s: "t = JStr s"
    by (cases t) simp_all
  from Cons.prems s obtain host port where hp: "split_colon s = [host, port]"
    by (auto split: list.splits)
  show ?case
  proof (cases "strip host = ''*''")
    case True
    then have "split_targets ts (ps @ [strip port]) us = Inr (ps', us')"
      using Cons.prems s hp by simp
    from Cons.IH [OF this] show ?thesis
      using True s hp by (simp add: is_wildcard_target_def wildcard_port_def)
  next
    case False
    then have "split_targets ts ps (us @ [t]) = Inr (ps', us')"
      using Cons.prems s hp by simp
    from Cons.IH [OF this] show ?thesis
      using False s hp by (simp add: is_wildcard_target_def)
  qed
qed

lemma label_hosts_closed:
  "label_hosts lib ports labels meta hosts acc sl = Inr (acc', sl') \<Longrightarrow>
   \<exists>ms. acc' = acc @ ms
     \<and> list_all2 (\<lambda>(name, address) e. labeled_unit_config lib name address ports labels meta = Inr e) hosts ms
     \<and> sl' = (if hosts = [] \<or> ''juju_unit'' \<in> set sl then sl else sl @ [''juju_unit''])"
proof (induction hosts arbitrary: acc sl)
  case Nil
  then show ?case by simp
next
  case (Cons h hosts)
  obtain name address where h: "h = (name, address)" by (cases h)
  let ?sl = "if ''juju_unit'' \<notin> set sl then sl @ [''juju_unit''] else sl"
  from Cons.prems h obtain e where e: "labeled_unit_config lib name address ports labels meta = Inr e"
    and rest: "label_hosts lib ports labels meta hosts (acc @ [e]) ?sl = Inr (acc', sl')"
    by (auto simp: ebind_eq_Inr)
  from Cons.IH [OF rest] obtain ms where ms: "acc' = (acc @ [e]) @ ms"
    "list_all2 (\<lambda>(name, address) e. labeled_unit_config lib name address ports labels meta = Inr e) hosts ms"
    "sl' = (if hosts = [] \<or> ''juju_unit'' \<in> set ?sl then ?sl else ?sl @ [''juju_unit''])"
    by blast
  have "acc' = acc @ (e # ms)" using ms(1) by simp
  moreover have "list_all2 (\<lambda>(name, address) e. labeled_unit_config lib name address ports labels meta = Inr e)
      (h # hosts) (e # ms)"
    using ms(2) e h by simp
  moreover have "sl' = (if h # hosts = [] \<or> ''juju_unit'' \<in> set sl then sl else sl @ [''juju_unit''])"
    using ms(3) by auto
  ultimately show ?case by blast
qed

lemma py_iter_truthy: "py_iter v = Inr (x # xs) \<Longrightarrow> truthy v"
  by (cases v) auto

lemma label_static_config_closed:
  assumes "label_static_config lib hosts meta scs g acc sl = Inr (acc', sl')" and "truthy scs"
  shows "\<exists>es. acc' = acc @ es \<and> config_produces lib hosts meta g es
     \<and> sl' = (if hosts = [] \<or> ''juju_unit'' \<in> set sl then sl else sl @ [''juju_unit''])"
proof -
  from assms(1) obtain d where g: "g = JDict d"
    by (cases g) (simp_all add: label_static_config_def)
  let ?labels = "case dict_get ''labels'' d of Some l \<Rightarrow> l | None \<Rightarrow> JDict []"
  let ?targets = "case dict_get ''targets'' d of Some t \<Rightarrow> t | None \<Rightarrow> JList []"
  from assms g obtain ts ports unitless acc1 where
    ts: "py_iter ?targets = Inr ts"
    and sp: "split_targets ts [] [] = Inr (ports, unitless)"
    and fq: "(if unitless \<noteq> []
              then ebind (labeled_unitless_config lib unitless ?labels meta) (\<lambda>c. Inr (acc @ [c]))
              else Inr acc) = Inr acc1"
    and hs: "label_hosts lib ports ?labels meta hosts acc1 sl = Inr (acc', sl')"
    by (auto simp: label_static_config_def Let_def ebind_eq_Inr)
  have cts: "config_targets d = ts"
    using ts by (auto simp: config_targets_def split: option.splits)
  from split_targets_closed [OF sp] have ports: "ports = wildcard_ports d"
    and unitless: "unitless = qualified_targets d"
    by (simp_all add: wildcard_ports_def qualified_targets_def cts)
  from label_hosts_closed [OF hs] obtain ms where ms: "acc' = acc1 @ ms"
    "list_all2 (\<lambda>(name, address) e. labeled_unit_config lib name address ports ?labels meta = Inr e) hosts ms"
    "sl' = (if hosts = [] \<or> ''juju_unit'' \<in> set sl then sl else sl @ [''juju_unit''])"
    by blast
  have len: "length ms = length hosts" using ms(2) by (simp add: list_all2_lengthD)
  show ?thesis
  proof (cases "unitless = []")
    case True
    then have "acc1 = acc" using fq by simp
    moreover have "qualified_count g = 0" using True unitless g by (simp add: qualified_count_def)
    ultimately have "acc' = acc @ ms \<and> config_produces lib hosts meta g ms"
      using ms(1,2) len g ports by (simp add: config_produces_def)
    then show ?thesis using ms(3) by blast
  next
    case False
    then obtain c where c: "labeled_unitless_config lib unitless ?labels meta = Inr c"
      and acc1: "acc1 = acc @ [c]"
      using fq by (auto simp: ebind_eq_Inr)
    have q: "qualified_count g = 1" using False unitless g by (simp add: qualified_count_def)
    have "acc' = acc @ (c # ms) \<and> config_produces lib hosts meta g (c # ms)"
      using ms(1,2) len g ports unitless c acc1 q by (simp add: config_produces_def)
    then show ?thesis using ms(3) by blast
  qed
qed

lemma label_static_configs_closed:
  assumes "truthy scs"
  shows "label_static_configs lib hosts meta scs groups acc sl = Inr (acc', sl') \<Longrightarrow>
   \<exists>ess. acc' = acc @ concat ess \<and> list_all2 (config_produces lib hosts meta) groups ess
     \<and> sl' = (if groups = [] \<or> hosts = [] \<or> ''juju_unit'' \<in> set sl then sl else sl @ [''juju_unit''])"
proof (induction groups arbitrary: acc sl)
  case Nil
  then show ?case by simp
next
  case (Cons g groups)
  let ?sl = "if hosts = [] \<or> ''juju_unit'' \<in> set sl then sl else sl @ [''juju_unit'']"
  from Cons.prems obtain acc1 sl1 where
    one: "label_static_config lib hosts meta scs g acc sl = Inr (acc1, sl1)"
    and rest: "label_static_configs lib hosts meta scs groups acc1 sl1 = Inr (acc', sl')"
    by (auto simp: ebind_eq_Inr)
  from label_static_config_closed [OF one assms] obtain es where es: "acc1 = acc @ es"
    "config_produces lib hosts meta g es" "sl1 = ?sl"
    by blast
  from Cons.IH [OF rest] obtain ess where ess: "acc' = acc1 @ concat ess"
    "list_all2 (config_produces lib hosts meta) groups ess"
    "sl' = (if groups = [] \<or> hosts = [] \<or> ''juju_unit'' \<in> set sl1 then sl1 else sl1 @ [''juju_unit''])"
    by blast
  have "acc' = acc @ concat (es # ess)" using es(1) ess(1) by simp
  moreover have "list_all2 (config_produces lib hosts meta) (g # groups) (es # ess)"
    using es(2) ess(2) by simp
  moreover have "sl' = (if g # groups = [] \<or> hosts = [] \<or> ''juju_unit'' \<in> set sl then sl else sl @ [''juju_unit''])"
    using ess(3) es(3) by auto
  ultimately show ?case by blast
qed

lemma labeled_static_job_config_closed:
  assumes "labeled_static_job_config lib job prefix hosts meta = Inr out"
  shows "\<exists>v groups ess. dict_get ''static_configs'' job = Some v \<and> py_iter v = Inr groups
     \<and> list_all2 (config_produces lib hosts meta) groups ess
     \<and> out = JDict (dict_set ''relabel_configs''
                (JList (existing_rules job @
                   [instance_relabel_config
                      ([''juju_model'', ''juju_model_uuid'', ''juju_application''] @
                       (if groups = [] \<or> hosts = [] then [] else [''juju_unit'']))]))
                (dict_set ''static_configs'' (JList (concat ess))
                  (dict_set ''static_configs'' (JList [])
                    (dict_set ''job_name'' (JStr (resolved_job_name prefix job)) job))))"
proof -
  let ?scs = "case dict_get ''static_configs'' job of Some v \<Rightarrow> v | None \<Rightarrow> JNull"
  let ?base = "[''juju_model'', ''juju_model_uuid'', ''juju_application'']"
  from assms obtain groups labeled sl rc where
    it: "py_iter ?scs = Inr groups"
    and loop: "label_static_configs lib hosts meta ?scs groups [] ?base = Inr (labeled, sl)"
    and rc: "(case dict_get ''relabel_configs'' job of
                None \<Rightarrow> Inr [instance_relabel_config sl]
              | Some (JList rules) \<Rightarrow> Inr (rules @ [instance_relabel_config sl])
              | Some _ \<Rightarrow> Inl AttributeError) = Inr rc"
    and out: "out = JDict (dict_set ''relabel_configs'' (JList rc)
                (dict_set ''static_configs'' (JList labeled)
                  (dict_set ''static_configs'' (JList [])
                    (dict_set ''job_name'' (JStr (resolved_job_name prefix job)) job))))"
    by (auto simp: labeled_static_job_config_def Let_def ebind_eq_Inr)
  from it obtain v where v: "dict_get ''static_configs'' job = Some v" "py_iter v = Inr groups"
    by (cases "dict_get ''static_configs'' job") simp_all
  have "\<exists>ess. labeled = concat ess \<and> list_all2 (config_produces lib hosts meta) groups ess
      \<and> sl = ?base @ (if groups = [] \<or> hosts = [] then [] else [''juju_unit''])"
  proof (cases groups)
    case Nil
    then show ?thesis using loop by simp
  next
    case (Cons g gs)
    then have "truthy ?scs" using it py_iter_truthy by blast
    from label_static_configs_closed [OF this loop] show ?thesis by auto
  qed
  then obtain ess where ess: "labeled = concat ess"
    "list_all2 (config_produces lib hosts meta) groups ess"
    "sl = ?base @ (if groups = [] \<or> hosts = [] then [] else [''juju_unit''])"
    by blast
  have "rc = existing_rules job @ [instance_relabel_config sl]"
    using rc by (auto simp: existing_rules_def split: option.splits json.splits)
  then show ?thesis using v ess out by blast
qed

lemma labeled_static_job_config_fields:
  assumes "labeled_static_job_config lib job prefix hosts meta = Inr out"
  shows "\<exists>v groups ess. dict_get ''static_configs'' job = Some v \<and> py_iter v = Inr groups
     \<and> list_all2 (config_produces lib hosts meta) groups ess
     \<and> field ''job_name'' out = Some (JStr (resolved_job_name prefix job))
     \<and> field ''static_configs'' out = Some (JList (concat ess))
     \<and> field ''relabel_configs'' out =
         Some (JList (existing_rules job @
                   [instance_relabel_config
                      ([''juju_model'', ''juju_model_uuid'', ''juju_application''] @
                       (if groups = [] \<or> hosts = [] then [] else [''juju_unit'']))]))"
proof -
  from labeled_static_job_config_closed [OF assms] obtain v groups ess where
    a: "dict_get ''static_configs'' job = Some v" "py_iter v = Inr groups"
       "list_all2 (config_produces lib hosts meta) groups ess"
    and out: "out = JDict (dict_set ''relabel_configs''
                (JList (existing_rules job @
                   [instance_relabel_config
                      ([''juju_model'', ''juju_model_uuid'', ''juju_application''] @
                       (if groups = [] \<or> hosts = [] then [] else [''juju_unit'']))]))
                (dict_set ''static_configs'' (JList (concat ess))
                  (dict_set ''static_configs'' (JList [])
                    (dict_set ''job_name'' (JStr (resolved_job_name prefix job)) job))))"
    by blast
  have "field ''job_name'' out = Some (JStr (resolved_job_name prefix job))"
    "field ''static_configs'' out = Some (JList (concat ess))"
    "field ''relabel_configs'' out =
         Some (JList (existing_rules job @
                   [instance_relabel_config
                      ([''juju_model'', ''juju_model_uuid'', ''juju_application''] @
                       (if groups = [] \<or> hosts = [] then [] else [''juju_unit'']))]))"
    by (simp_all add: out field_def dict_get_dict_set)
  then show ?thesis using a by blast
qed

lemma topo_lookup:
  assumes "distinct (dict_keys topo)" and "(k, v) \<in> set topo"
  shows "dict_get k (dict_update user topo) = Some v"
proof -
  have "dict_get k topo = Some v"
    using assms by (simp add: dict_get_def dict_keys_def)
  then show ?thesis by (simp add: dict_get_dict_update [OF assms(1)])
qed

lemma set_juju_labels_closed:
  assumes "label_matcher_dict lib meta = Inr topo"
    and "set_juju_labels lib labels meta = Inr l"
  shows "\<exists>user. labels = JDict user \<and> l = dict_update user topo"
  using assms by (cases labels) (auto simp: set_juju_labels_def)

lemma labeled_unit_config_member:
  assumes "label_matcher_dict lib meta = Inr topo" and "distinct (dict_keys topo)"
    and "labeled_unit_config lib name address ports labels meta = Inr e"
  shows "member_derived topo ports (name, address) e"
proof -
  from assms(3) obtain l where l: "set_juju_labels lib labels meta = Inr l"
    and e: "e = JDict [(''labels'', JDict (dict_set ''juju_unit'' (JStr name) l)),
                       (''targets'', JList (if ports \<noteq> []
                          then map (\<lambda>port. JStr (address @ '':'' @ port)) ports
                          else [JStr address]))]"
    by (auto simp: labeled_unit_config_def ebind_eq_Inr)
  from set_juju_labels_closed [OF assms(1) l] obtain user where
    user: "labels = JDict user" "l = dict_update user topo" by blast
  have "k = ''juju_unit'' \<or> dict_get k (dict_set ''juju_unit'' (JStr name) l) = Some v"
    if "(k, v) \<in> set topo" for k v
    using topo_lookup [OF assms(2) that] user(2) by (simp add: dict_get_dict_set)
  then have "list_all (\<lambda>(k, v). k = ''juju_unit'' \<or>
      dict_get k (dict_set ''juju_unit'' (JStr name) l) = Some v) topo"
    by (auto simp: list_all_iff)
  then show ?thesis
    by (simp add: member_derived_def e field_def dict_get_def dict_get_dict_set [unfolded dict_get_def])
qed

lemma labeled_unitless_config_qualified:
  assumes "label_matcher_dict lib meta = Inr topo" and "distinct (dict_keys topo)"
    and "labeled_unitless_config lib targets labels meta = Inr e"
  shows "\<exists>user. labels = JDict user \<and> qualified_derived topo user targets e"
proof -
  from assms(3) obtain l where l: "set_juju_labels lib labels meta = Inr l"
    and e: "e = JDict [(''targets'', JList targets), (''labels'', JDict l)]"
    by (auto simp: labeled_unitless_config_def ebind_eq_Inr)
  from set_juju_labels_closed [OF assms(1) l] obtain user where
    user: "labels = JDict user" "l = dict_update user topo" by blast
  have "list_all (\<lambda>(k, v). dict_get k l = Some v) topo"
    using topo_lookup [OF assms(2)] user(2) by (auto simp: list_all_iff)
  moreover have "set (dict_keys l) = set (dict_keys user) \<union> set (dict_keys topo)"
    by (simp add: user(2) keys_dict_update)
  ultimately have "qualified_derived topo user targets e"
    by (simp add: qualified_derived_def e field_def dict_get_def)
  then show ?thesis using user(1) by blast
qed

lemma config_produces_entries:
  assumes "label_matcher_dict lib meta = Inr topo" and "distinct (dict_keys topo)"
    and "config_produces lib hosts meta g es"
  shows "config_entries topo hosts g es"
proof -
  from assms(3) obtain d where g: "g = JDict d"
    by (cases g) (simp_all add: config_produces_def)
  let ?labels = "case dict_get ''labels'' d of Some l \<Rightarrow> l | None \<Rightarrow> JDict []"
  from assms(3) g have len: "length es = qualified_count g + length hosts"
    and fq: "list_all (\<lambda>e. labeled_unitless_config lib (qualified_targets d) ?labels meta = Inr e)
               (take (qualified_count g) es)"
    and ms: "list_all2 (\<lambda>(name, address) e.
               labeled_unit_config lib name address (wildcard_ports d) ?labels meta = Inr e)
               hosts (drop (qualified_count g) es)"
    by (simp_all add: config_produces_def Let_def)
  have "list_all2 (member_derived topo (wildcard_ports d)) hosts (drop (qualified_count g) es)"
    using ms
    by (rule list_all2_mono) (auto intro: labeled_unit_config_member [OF assms(1,2)])
  moreover have "list_all (qualified_derived topo (config_labels d) (qualified_targets d))
      (take (qualified_count g) es)"
    unfolding list_all_iff
  proof
    fix e assume "e \<in> set (take (qualified_count g) es)"
    then have "labeled_unitless_config lib (qualified_targets d) ?labels meta = Inr e"
      using fq by (simp add: list_all_iff)
    from labeled_unitless_config_qualified [OF assms(1,2) this]
    obtain user where user: "?labels = JDict user"
      "qualified_derived topo user (qualified_targets d) e" by blast
    from user(1) have "config_labels d = user"
      by (auto simp: config_labels_def split: option.splits)
    then show "qualified_derived topo (config_labels d) (qualified_targets d) e"
      using user(2) by simp
  qed
  ultimately show ?thesis using len g by (simp add: config_entries_def)
qed

section \<open>A valid job has an expansion\<close>

lemma split_targets_valid:
  "list_all valid_target ts \<Longrightarrow> \<exists>r. split_targets ts ps us = Inr r"
proof (induction ts arbitrary: ps us)
  case Nil
  then show ?case by simp
next
  case (Cons t ts)
  from Cons.prems obtain s where s: "t = JStr s" "count_list s CHR '':'' = 1"
    by (auto simp: valid_target_def split: json.splits)
  then obtain host port where hp: "split_colon s = [host, port]"
    using split_colon_two by blast
  from Cons.prems have "list_all valid_target ts" by simp
  from Cons.IH [OF this] show ?case using s hp by simp
qed

lemma label_hosts_valid:
  assumes "label_matcher_dict lib meta = Inr topo"
  shows "\<exists>r. label_hosts lib ports (JDict user) meta hosts acc sl = Inr r"
proof (induction hosts arbitrary: acc sl)
  case Nil
  then show ?case by simp
next
  case (Cons h hosts)
  obtain name address where h: "h = (name, address)" by (cases h)
  show ?case using Cons [of _ _] assms h
    by (simp add: labeled_unit_config_def set_juju_labels_def)
qed

lemma label_static_config_valid:
  assumes "label_matcher_dict lib meta = Inr topo" and "valid_config g"
  shows "\<exists>r. label_static_config lib hosts meta scs g acc sl = Inr r"
proof -
  from assms(2) obtain d where g: "g = JDict d"
    by (cases g) (simp_all add: valid_config_def)
  define labels where "labels =
    (if truthy scs then (case dict_get ''labels'' d of Some l \<Rightarrow> l | None \<Rightarrow> JDict [])
     else JDict [])"
  define targets where "targets = (case dict_get ''targets'' d of Some t \<Rightarrow> t | None \<Rightarrow> JList [])"
  have body: "label_static_config lib hosts meta scs g acc sl =
      ebind (py_iter targets) (\<lambda>ts.
      ebind (split_targets ts [] []) (\<lambda>(ports, unitless).
      ebind (if unitless \<noteq> []
             then ebind (labeled_unitless_config lib unitless labels meta) (\<lambda>c. Inr (acc @ [c]))
             else Inr acc) (\<lambda>acc1.
      label_hosts lib ports labels meta hosts acc1 sl)))"
    by (simp only: label_static_config_def g json.case Let_def labels_def targets_def)
  from assms(2) g have "\<exists>user. labels = JDict user"
    by (auto simp: valid_config_def labels_def split: option.splits json.splits)
  then obtain user where user: "labels = JDict user" by blast
  from assms(2) g have "\<exists>ts. targets = JList ts \<and> list_all valid_target ts"
    by (auto simp: valid_config_def targets_def split: option.splits json.splits)
  then obtain ts where ts: "targets = JList ts" "list_all valid_target ts" by blast
  from split_targets_valid [OF ts(2), of "[]" "[]"] obtain ports unitless where
    sp: "split_targets ts [] [] = Inr (ports, unitless)" by auto
  have "\<exists>acc1. (if unitless \<noteq> []
        then ebind (labeled_unitless_config lib unitless (JDict user) meta) (\<lambda>c. Inr (acc @ [c]))
        else Inr acc) = Inr acc1"
    using assms(1) by (simp add: labeled_unitless_config_def set_juju_labels_def)
  then obtain acc1 where acc1: "(if unitless \<noteq> []
        then ebind (labeled_unitless_config lib unitless (JDict user) meta) (\<lambda>c. Inr (acc @ [c]))
        else Inr acc) = Inr acc1" by blast
  from label_hosts_valid [OF assms(1), of ports user hosts acc1 sl] obtain r where
    "label_hosts lib ports (JDict user) meta hosts acc1 sl = Inr r" by blast
  then have "label_static_config lib hosts meta scs g acc sl = Inr r"
    using sp acc1 by (auto simp: body user ts(1) split: if_splits)
  then show ?thesis by blast
qed

lemma label_static_configs_valid:
  assumes "label_matcher_dict lib meta = Inr topo"
  shows "list_all valid_config groups \<Longrightarrow>
    \<exists>r. label_static_configs lib hosts meta scs groups acc sl = Inr r"
proof (induction groups arbitrary: acc sl)
  case Nil
  then show ?case by simp
next
  case (Cons g groups)
  from Cons.prems have g: "valid_config g" and gs: "list_all valid_config groups" by simp_all
  from label_static_config_valid [OF assms g, of hosts scs acc sl] obtain acc1 sl1 where
    "label_static_config lib hosts meta scs g acc sl = Inr (acc1, sl1)" by auto
  then show ?case using Cons.IH [OF gs, of acc1 sl1] by simp
qed

lemma labeled_static_job_config_valid:
  assumes "label_matcher_dict lib meta = Inr topo" and "valid_job job"
  shows "\<exists>out. labeled_static_job_config lib job prefix hosts meta = Inr out"
proof -
  from assms(2) obtain groups where g: "dict_get ''static_configs'' job = Some (JList groups)"
    and all: "list_all valid_config groups"
    by (auto simp: valid_job_def split: option.splits json.splits)
  from label_static_configs_valid [OF assms(1) all] obtain labeled sl where
    loop: "label_static_configs lib hosts meta (JList groups) groups []
             [''juju_model'', ''juju_model_uuid'', ''juju_application''] = Inr (labeled, sl)"
    by (metis surj_pair)
  from assms(2) have "\<exists>rc. (case dict_get ''relabel_configs'' job of
                None \<Rightarrow> Inr [instance_relabel_config sl]
              | Some (JList rules) \<Rightarrow> Inr (rules @ [instance_relabel_config sl])
              | Some _ \<Rightarrow> Inl AttributeError) = Inr rc"
    by (auto simp: valid_job_def split: option.splits json.splits)
  then show ?thesis
    using g loop by (auto simp: labeled_static_job_config_def Let_def)
qed

section \<open>The static entries of a concrete job\<close>

text \<open>
  C3, as the code has it.  A valid job, with a topology whose labels are known, has an
  expansion.  Its static entries are, for each static config of the job in order, first one
  entry for the fully qualified targets of that static config, if it has any, then exactly
  one member-derived entry for each host, in the order of the hosts.  A member-derived entry
  has the host's name as its \<^verbatim>\<open>juju_unit\<close> label and the topology's value for every other
  topology label, and its targets are the host's address joined to each wildcard port of that
  static config, or the bare address if the static config has no wildcard port.  The entry of
  the fully qualified targets lists exactly these, has the topology's value for every topology
  label, and gets no \<^verbatim>\<open>juju_unit\<close> label from the expansion: it has one only if the static
  config's own labels, or the topology labels, have that key.
\<close>

theorem expansion_entries:
  assumes "valid_job job" and "dict_get ''static_configs'' job = Some (JList groups)"
    and "label_matcher_dict lib meta = Inr topo" and "distinct (dict_keys topo)"
  shows "\<exists>out ess. labeled_static_job_config lib job prefix hosts meta = Inr out
       \<and> field ''static_configs'' out = Some (JList (concat ess))
       \<and> list_all2 (config_entries topo hosts) groups ess"
proof -
  from labeled_static_job_config_valid [OF assms(3,1)] obtain out where
    out: "labeled_static_job_config lib job prefix hosts meta = Inr out" by blast
  from labeled_static_job_config_fields [OF out] obtain v gs ess where
    v: "dict_get ''static_configs'' job = Some v" "py_iter v = Inr gs"
    and prod: "list_all2 (config_produces lib hosts meta) gs ess"
    and st: "field ''static_configs'' out = Some (JList (concat ess))"
    by blast
  from v assms(2) have "gs = groups" by auto
  with prod have "list_all2 (config_entries topo hosts) groups ess"
    by (auto intro: list_all2_mono config_produces_entries [OF assms(3,4)])
  with out st show ?thesis by blast
qed

lemma spec_topology_labels: "label_matcher_dict spec_topology meta0 = Inr topo0"
  by (simp add: spec_topology_def spec_fields_def meta0_def topo0_def dict_get_def)

lemma valid_mixed_job: "valid_job mixed_job"
  by (simp add: valid_job_def mixed_job_def mixed_config_def valid_config_def valid_target_def
      dict_get_def)

theorem expansion_entries_witness:
  "\<exists>out ess. labeled_static_job_config spec_topology mixed_job ''p'' hosts0 meta0 = Inr out
       \<and> field ''static_configs'' out = Some (JList (concat ess))
       \<and> list_all2 (config_entries topo0 hosts0) [mixed_config] ess"
proof -
  have a: "dict_get ''static_configs'' mixed_job = Some (JList [mixed_config])"
    by (simp add: mixed_job_def dict_get_def)
  have b: "distinct (dict_keys topo0)"
    by (simp add: topo0_def dict_keys_def)
  show ?thesis
    using expansion_entries [OF valid_mixed_job a spec_topology_labels b] .
qed

text \<open>C3.  A static config with one fully qualified target whose own labels name
  \<^verbatim>\<open>juju_unit\<close>: the entry derived from the fully qualified target carries that label.\<close>

theorem unit_label_counterexample:
  "map_sum id (field ''static_configs'')
     (labeled_static_job_config spec_topology unit_label_job ''p'' [] meta0)
   = Inr (Some (JList
       [JDict [(''targets'', JList [JStr ''10.1.32.215:7000'']),
               (''labels'', JDict [(''juju_unit'', JStr ''other/7''),
                                   (''juju_model'', JStr ''m''),
                                   (''juju_model_uuid'', JStr ''u''),
                                   (''juju_application'', JStr ''app'')])]]))"
  by code_simp

section \<open>The instance relabeling\<close>




section \<open>Topology labels and the labels of a static config\<close>

lemma list_all2_concat_member:
  assumes "list_all2 P xs yss" and "y \<in> set (concat yss)"
  shows "\<exists>x ys. x \<in> set xs \<and> P x ys \<and> y \<in> set ys"
  using assms
proof (induction rule: list_all2_induct)
  case Nil
  then show ?case by simp
next
  case (Cons x xs ys yss)
  then show ?case by auto
qed

lemma list_all2_right_member:
  assumes "list_all2 P xs ys" and "y \<in> set ys"
  shows "\<exists>x\<in>set xs. P x y"
  using assms
proof (induction rule: list_all2_induct)
  case Nil
  then show ?case by simp
next
  case (Cons x xs y' ys)
  then show ?case by auto
qed

lemma config_entries_labels:
  assumes "config_entries topo hosts g es" and "e \<in> set es" and "(k, v) \<in> set topo"
  shows "\<exists>l. field ''labels'' e = Some (JDict l)
     \<and> (dict_get k l = Some v
          \<or> (k = ''juju_unit'' \<and> (\<exists>name\<in>set (dict_keys hosts). dict_get k l = Some (JStr name))))"
proof -
  from assms(1) obtain d where g: "g = JDict d"
    by (cases g) (simp_all add: config_entries_def)
  let ?n = "qualified_count g"
  from assms(1) g have fq: "list_all (qualified_derived topo (config_labels d) (qualified_targets d)) (take ?n es)"
    and ms: "list_all2 (member_derived topo (wildcard_ports d)) hosts (drop ?n es)"
    by (simp_all add: config_entries_def)
  from assms(2) have "e \<in> set (take ?n es) \<or> e \<in> set (drop ?n es)"
    by (metis Un_iff append_take_drop_id set_append)
  then show ?thesis
  proof
    assume "e \<in> set (take ?n es)"
    then have "qualified_derived topo (config_labels d) (qualified_targets d) e"
      using fq by (simp add: list_all_iff)
    then show ?thesis using assms(3)
      by (auto simp: qualified_derived_def list_all_iff split: option.splits json.splits)
  next
    assume "e \<in> set (drop ?n es)"
    from list_all2_right_member [OF ms this]
    obtain h where h: "h \<in> set hosts" "member_derived topo (wildcard_ports d) h e"
      by blast
    then have "fst h \<in> set (dict_keys hosts)" by (simp add: dict_keys_def)
    then show ?thesis using h(2) assms(3)
      by (auto simp: member_derived_def list_all_iff split: option.splits json.splits)
  qed
qed

text \<open>
  C9.  Take a concrete job and a key \<open>k\<close> that the topology labels map to \<open>v\<close>.  Every static
  entry of the job has a label map, in which \<open>k\<close> has the value \<open>v\<close>, whatever the static
  config's own labels say for \<open>k\<close>; the one exception is the key \<^verbatim>\<open>juju_unit\<close>, which a
  member-derived entry maps to the name of its host.  For the two functions that build the
  entries: \<^verbatim>\<open>_labeled_unit_config\<close> maps \<^verbatim>\<open>juju_unit\<close> to the unit name and every other
  topology key to the topology's value, and \<^verbatim>\<open>_labeled_unitless_config\<close> maps every topology
  key to the topology's value, for every label map of the static config.
\<close>

theorem identity_labels_override:
  assumes "labeled_static_job_config lib job prefix hosts meta = Inr out"
    and "label_matcher_dict lib meta = Inr topo" and "distinct (dict_keys topo)"
    and "field ''static_configs'' out = Some (JList entries)" and "e \<in> set entries"
    and "dict_get k topo = Some v"
  shows "(\<exists>l. field ''labels'' e = Some (JDict l)
           \<and> (dict_get k l = Some v
                \<or> (k = ''juju_unit'' \<and> (\<exists>name\<in>set (dict_keys hosts). dict_get k l = Some (JStr name)))))
       \<and> (\<forall>name address ports user e'.
             labeled_unit_config lib name address ports (JDict user) meta = Inr e' \<longrightarrow>
             (\<exists>l. field ''labels'' e' = Some (JDict l)
                \<and> dict_get ''juju_unit'' l = Some (JStr name)
                \<and> (k \<noteq> ''juju_unit'' \<longrightarrow> dict_get k l = Some v)))
       \<and> (\<forall>targets user e'.
             labeled_unitless_config lib targets (JDict user) meta = Inr e' \<longrightarrow>
             (\<exists>l. field ''labels'' e' = Some (JDict l) \<and> dict_get k l = Some v))"
proof (intro conjI allI impI)
  have kv: "(k, v) \<in> set topo"
    using assms(6) by (simp add: dict_get_def map_of_SomeD)
  from labeled_static_job_config_fields [OF assms(1)] obtain w groups ess where
    prod: "list_all2 (config_produces lib hosts meta) groups ess"
    and st: "field ''static_configs'' out = Some (JList (concat ess))"
    by blast
  from st assms(4,5) have "e \<in> set (concat ess)" by simp
  from list_all2_concat_member [OF prod this] obtain g es where
    "config_produces lib hosts meta g es" "e \<in> set es" by blast
  then show "\<exists>l. field ''labels'' e = Some (JDict l)
           \<and> (dict_get k l = Some v
                \<or> (k = ''juju_unit'' \<and> (\<exists>name\<in>set (dict_keys hosts). dict_get k l = Some (JStr name))))"
    using config_entries_labels [OF config_produces_entries [OF assms(2,3)] _ kv] by blast
next
  fix name address ports user e'
  assume "labeled_unit_config lib name address ports (JDict user) meta = Inr e'"
  from labeled_unit_config_member [OF assms(2,3) this]
  have m: "member_derived topo ports (name, address) e'" .
  have kv: "(k, v) \<in> set topo"
    using assms(6) by (simp add: dict_get_def map_of_SomeD)
  show "\<exists>l. field ''labels'' e' = Some (JDict l)
                \<and> dict_get ''juju_unit'' l = Some (JStr name)
                \<and> (k \<noteq> ''juju_unit'' \<longrightarrow> dict_get k l = Some v)"
    using m kv
    by (auto simp: member_derived_def list_all_iff split: option.splits json.splits)
next
  fix targets user e'
  assume "labeled_unitless_config lib targets (JDict user) meta = Inr e'"
  from labeled_unitless_config_qualified [OF assms(2,3) this]
  obtain u where q: "qualified_derived topo u targets e'" by blast
  have kv: "(k, v) \<in> set topo"
    using assms(6) by (simp add: dict_get_def map_of_SomeD)
  show "\<exists>l. field ''labels'' e' = Some (JDict l) \<and> dict_get k l = Some v"
    using q kv
    by (auto simp: qualified_derived_def list_all_iff split: option.splits json.splits)
qed

lemma valid_collide_job: "valid_job collide_job"
  by (simp add: valid_job_def collide_job_def valid_config_def valid_target_def dict_get_def)

theorem identity_labels_override_witness:
  "\<exists>out entries. labeled_static_job_config spec_topology collide_job ''p'' hosts0 meta0 = Inr out
     \<and> field ''static_configs'' out = Some (JList entries)
     \<and> length entries = 3
     \<and> (\<forall>e\<in>set entries. \<exists>l. field ''labels'' e = Some (JDict l)
           \<and> dict_get ''juju_model'' l = Some (JStr ''m''))"
proof -
  from labeled_static_job_config_valid [OF spec_topology_labels valid_collide_job]
  obtain out where out: "labeled_static_job_config spec_topology collide_job ''p'' hosts0 meta0 = Inr out"
    by blast
  have "(case labeled_static_job_config spec_topology collide_job ''p'' hosts0 meta0 of
           Inr j \<Rightarrow> (case field ''static_configs'' j of
                      Some (JList entries) \<Rightarrow> length entries
                    | _ \<Rightarrow> 0)
         | Inl e \<Rightarrow> 0) = (3::nat)"
    by code_simp
  with out obtain entries where st: "field ''static_configs'' out = Some (JList entries)"
    and len: "length entries = 3"
    by (auto split: option.splits json.splits)
  have d: "distinct (dict_keys topo0)" by (simp add: topo0_def dict_keys_def)
  have k: "dict_get ''juju_model'' topo0 = Some (JStr ''m'')"
    by (simp add: topo0_def dict_get_def)
  have "\<exists>l. field ''labels'' e = Some (JDict l) \<and> dict_get ''juju_model'' l = Some (JStr ''m'')"
    if "e \<in> set entries" for e
    using identity_labels_override [OF out spec_topology_labels d st that k] by simp
  with out st len show ?thesis by blast
qed

section \<open>The names of the concrete jobs\<close>









section \<open>The order of the units\<close>

text \<open>The static entries of a concrete job follow the order in which the units of the
  relation are iterated: the same two units, iterated in the other order, give the two
  member-derived entries in the other order.\<close>

lemma entries_follow_unit_order:
  "jobs spec_topology [rel_two_units [unit0, unit1]] \<noteq> jobs spec_topology [rel_two_units [unit1, unit0]]"
  by code_simp

end
